theory Spec2Isabelle
  imports Main
begin

section \<open>JavaScript values, options and the host\<close>

text \<open>
  The values the injector handles. Objects and functions are references (an identity);
  what a function carries as properties and what it does when applied is given by the
  host (below). Objects are plain: none has a method named \<open>map\<close>, so that only an
  array can be mapped over. Numbers are integers here (no NaN). \<open>ErrorObj\<close> is an Error
  object, as Node's \<open>require\<close> and the engine throw them. A \<open>throw\<close> can carry any
  value, and so can a module's export.
\<close>

datatype jsval =
    Undefined
  | Null
  | Bool bool
  | Num int
  | Str string
  | Arr "jsval list"
  | Obj nat
  | Fun nat
  | ErrorObj string

text \<open>JavaScript's truthiness (\<open>if (x)\<close>, \<open>x && y\<close>).\<close>

fun truthy :: "jsval \<Rightarrow> bool" where
  "truthy Undefined = False"
| "truthy Null = False"
| "truthy (Bool b) = b"
| "truthy (Num n) = (n \<noteq> 0)"
| "truthy (Str s) = (s \<noteq> [])"
| "truthy (Arr xs) = True"
| "truthy (Obj a) = True"
| "truthy (Fun f) = True"
| "truthy (ErrorObj m) = True"

text \<open>
  The values of the type documented for \<open>context\<close> (line 15 of \<open>src/lib/index.js\<close>,
  \<open>@param {object} [context]\<close>): objects, arrays, functions and Error objects.
\<close>

fun is_object :: "jsval \<Rightarrow> bool" where
  "is_object (Arr xs) = True"
| "is_object (Obj a) = True"
| "is_object (Fun f) = True"
| "is_object (ErrorObj m) = True"
| "is_object v = False"

text \<open>The operator \<open>a || b\<close>.\<close>

definition js_or :: "jsval \<Rightarrow> jsval \<Rightarrow> jsval" where
  "js_or a b = (if truthy a then a else b)"

fun isArray :: "jsval \<Rightarrow> bool" where
  "isArray (Arr xs) = True"
| "isArray v = False"

text \<open>The error the engine throws on \<open>undefined.map\<close> or on calling a non-function.\<close>

definition TypeError :: jsval where
  "TypeError = ErrorObj ''TypeError''"

text \<open>\<open>options.moduleDir\<close>: a string, or (in the second version) an array of strings.\<close>

datatype moduleDirs = DirStr string | DirArr "string list"

text \<open>
  \<open>options.require\<close>: the function the module installs as
  \<open>vaccinate.defaults.require\<close>, or a function of the caller's.
\<close>

datatype loader = DefaultRequire | CustomRequire nat

text \<open>The options object; \<open>None\<close> is a property that is absent (reads as undefined).\<close>

record options =
  dependenciesProperty :: "string option"
  moduleDir :: "moduleDirs option"
  require :: "loader option"

text \<open>The object literal \<open>{}\<close>.\<close>

definition empty_object :: options where
  "empty_object = \<lparr>dependenciesProperty = None, moduleDir = None, require = None\<rparr>"

text \<open>
  \<open>vaccinate.defaults\<close> as the module sets it at load time (lines 27 to 41 and 27 to 58):
  no \<open>moduleDir\<close>.
\<close>

definition initial_defaults :: options where
  "initial_defaults =
     \<lparr>dependenciesProperty = Some ''$vaccinations'', moduleDir = None,
      require = Some DefaultRequire\<rparr>"

text \<open>
  Everything outside the injector: Node's \<open>require\<close> (returns the module's exports or
  throws a value), the properties of function objects (\<open>Undefined\<close> when absent), what
  a function does when applied to a receiver and arguments (returns or throws), and the
  loaders a caller passes as \<open>options.require\<close>. \<open>Inl\<close> is a thrown value.
\<close>

record host =
  host_require :: "string \<Rightarrow> jsval + jsval"
  fun_prop :: "nat \<Rightarrow> string \<Rightarrow> jsval"
  fun_apply :: "nat \<Rightarrow> jsval \<Rightarrow> jsval list \<Rightarrow> jsval + jsval"
  custom_require :: "nat \<Rightarrow> jsval \<Rightarrow> options \<Rightarrow> jsval + jsval"

text \<open>
  What a call does, in order: \<open>Host p\<close> is a call of Node's \<open>require\<close> on \<open>p\<close>,
  \<open>Loader m es\<close> a call of \<open>options.require\<close> on \<open>m\<close> with the events \<open>es\<close> inside
  it, \<open>Invoke f this args\<close> the call \<open>f.apply(this, args)\<close>.
\<close>

datatype event =
    Host string
  | Loader jsval "event list"
  | Invoke nat jsval "jsval list"

section \<open>Library functions the code calls\<close>

text \<open>
  lodash's \<open>_.defaults(object, source)\<close>, as lodash documents it: it assigns the source's
  properties to the destination for all destination properties that resolve to
  undefined, and it mutates \<open>object\<close>. The result is the state of \<open>object\<close> afterwards.
\<close>

definition lodash_defaults :: "options \<Rightarrow> options \<Rightarrow> options" where
  "lodash_defaults object source =
     \<lparr>dependenciesProperty =
        (case dependenciesProperty object of None \<Rightarrow> dependenciesProperty source | Some v \<Rightarrow> Some v),
      moduleDir = (case moduleDir object of None \<Rightarrow> moduleDir source | Some v \<Rightarrow> Some v),
      require = (case require object of None \<Rightarrow> require source | Some v \<Rightarrow> Some v)\<rparr>"

text \<open>lodash's \<open>_.startsWith(string, target)\<close>.\<close>

definition startsWith :: "string \<Rightarrow> string \<Rightarrow> bool" where
  "startsWith s target = (take (length target) s = target)"

text \<open>A property key: \<open>func[undefined]\<close> reads the property named "undefined".\<close>

fun prop_key :: "string option \<Rightarrow> string" where
  "prop_key None = ''undefined''"
| "prop_key (Some k) = k"

text \<open>\<open>Array.prototype.join\<close> with a comma, which is how an array converts to a string.\<close>

fun join_comma :: "string list \<Rightarrow> string" where
  "join_comma [] = []"
| "join_comma [s] = s"
| "join_comma (s # t # ss) = s @ '','' @ join_comma (t # ss)"

text \<open>Truthiness and string conversion of \<open>options.moduleDir\<close>.\<close>

fun dir_truthy :: "moduleDirs \<Rightarrow> bool" where
  "dir_truthy (DirStr s) = (s \<noteq> [])"
| "dir_truthy (DirArr ds) = True"

fun dir_string :: "moduleDirs \<Rightarrow> string" where
  "dir_string (DirStr s) = s"
| "dir_string (DirArr ds) = join_comma ds"

section \<open>The dependency loop, shared by both versions\<close>

text \<open>
  A run returns the options object as the call leaves it, the events in the order they
  happen, and the value returned (\<open>Inr\<close>) or thrown (\<open>Inl\<close>). \<open>None\<close> is a run whose
  nesting of \<open>vaccinate\<close> calls exceeds the depth bound (see below).
\<close>

type_synonym 'a run = "(options \<times> event list \<times> (jsval + 'a)) option"

text \<open>
  The callback of line 22 (the same line in both files),
  \<open>(module) => options.require(module, options)\<close>: with no \<open>require\<close> property the call
  throws a TypeError; a loader of the caller's is asked; \<open>default_loader\<close> is what the
  module's own \<open>vaccinate.defaults.require\<close> does.
\<close>

definition call_require ::
    "(jsval \<Rightarrow> options \<Rightarrow> jsval run) \<Rightarrow> host \<Rightarrow> jsval \<Rightarrow> options \<Rightarrow> jsval run" where
  "call_require default_loader h module opts =
     (case require opts of
        None \<Rightarrow> Some (opts, [], Inl TypeError)
      | Some (CustomRequire k) \<Rightarrow>
          Some (opts, [Loader module []], custom_require h k module opts)
      | Some DefaultRequire \<Rightarrow>
          (case default_loader module opts of
             None \<Rightarrow> None
           | Some (opts', tr, r) \<Rightarrow> Some (opts', [Loader module tr], r)))"

text \<open>
  \<open>Array.prototype.map\<close> over the declaration with a callback \<open>cb\<close>: the elements in
  order, the results collected in the same order; a throw inside the callback ends the
  loop at once.
\<close>

fun map_require ::
    "(jsval \<Rightarrow> options \<Rightarrow> jsval run) \<Rightarrow> options \<Rightarrow> jsval list \<Rightarrow> (jsval list) run" where
  "map_require cb opts [] = Some (opts, [], Inr [])"
| "map_require cb opts (module # modules) =
     (case cb module opts of
        None \<Rightarrow> None
      | Some (opts', tr, Inl ex) \<Rightarrow> Some (opts', tr, Inl ex)
      | Some (opts', tr, Inr v) \<Rightarrow>
          (case map_require cb opts' modules of
             None \<Rightarrow> None
           | Some (opts'', trs, Inl ex) \<Rightarrow> Some (opts'', tr @ trs, Inl ex)
           | Some (opts'', trs, Inr vs) \<Rightarrow> Some (opts'', tr @ trs, Inr (v # vs))))"

section \<open>src/lib/index.js\<close>

text \<open>
  The first version: \<open>moduleDir\<close> is one string, and \<open>vaccinate\<close> takes a context.

  Line 32: the name handed to Node's \<open>require\<close> on line 33. (An array given as
  \<open>moduleDir\<close> would be converted to a string by the \<open>+\<close>.)
\<close>

definition resolve_name_lib :: "string \<Rightarrow> options \<Rightarrow> string" where
  "resolve_name_lib module opts =
     (case moduleDir opts of
        None \<Rightarrow> module
      | Some md \<Rightarrow>
          if dir_truthy md \<and> startsWith module ''./'' then dir_string md @ ''/'' @ module
          else module)"

text \<open>
  \<open>vaccinate.defaults.require\<close> (lines 29 to 40). Its first argument is the function
  \<open>vaccinate\<close> that line 36 calls, applied to the dependency, the options and the context
  (none is passed there: \<open>Undefined\<close>).
\<close>

definition defaults_require_lib ::
    "(nat \<Rightarrow> options option \<Rightarrow> jsval \<Rightarrow> jsval run) \<Rightarrow> host \<Rightarrow> jsval \<Rightarrow> options \<Rightarrow> jsval run" where
  "defaults_require_lib vaccinate h module opts =
     (case module of
        Str name \<Rightarrow>
          (let path = resolve_name_lib name opts in
           case host_require h path of
             Inl ex \<Rightarrow> Some (opts, [Host path], Inl ex)
           | Inr dependency \<Rightarrow>
               (case dependency of
                  Fun f \<Rightarrow>
                    if isArray (fun_prop h f (prop_key (dependenciesProperty opts))) then
                      (case vaccinate f (Some opts) Undefined of
                         None \<Rightarrow> None
                       | Some (opts', tr, r) \<Rightarrow> Some (opts', Host path # tr, r))
                    else Some (opts, [Host path], Inr dependency)
                | _ \<Rightarrow> Some (opts, [Host path], Inr dependency)))
      | _ \<Rightarrow> Some (opts, [], Inr module))"

text \<open>
  \<open>vaccinate\<close> (lines 18 to 25). \<open>vaccinate\<close> and the default loader call each other, and
  a module may depend on itself, so the recursion need not end: the first argument bounds
  the depth of nested \<open>vaccinate\<close> calls, and \<open>None\<close> is a run that exceeds it.
  \<open>dflt\<close> is \<open>vaccinate.defaults\<close>; \<open>options\<close> is \<open>None\<close> when the caller passes none.
\<close>

fun vaccinate_lib ::
    "nat \<Rightarrow> host \<Rightarrow> options \<Rightarrow> nat \<Rightarrow> options option \<Rightarrow> jsval \<Rightarrow> jsval run" where
  "vaccinate_lib 0 h dflt func options ctx = None"
| "vaccinate_lib (Suc n) h dflt func options ctx =
     (let opts = lodash_defaults (case options of None \<Rightarrow> empty_object | Some given \<Rightarrow> given) dflt in
      case fun_prop h func (prop_key (dependenciesProperty opts)) of
        Arr modules \<Rightarrow>
          (case map_require
                  (call_require (defaults_require_lib (vaccinate_lib n h dflt) h) h) opts modules of
             None \<Rightarrow> None
           | Some (opts', tr, Inl ex) \<Rightarrow> Some (opts', tr, Inl ex)
           | Some (opts', tr, Inr args) \<Rightarrow>
               Some (opts', tr @ [Invoke func (js_or ctx Null) args],
                     fun_apply h func (js_or ctx Null) args))
      | _ \<Rightarrow> Some (opts, [], Inl TypeError))"

text \<open>The default loader of this version, with the nested calls bounded by \<open>n\<close>.\<close>

definition require_lib :: "nat \<Rightarrow> host \<Rightarrow> options \<Rightarrow> jsval \<Rightarrow> options \<Rightarrow> jsval run" where
  "require_lib n h dflt = defaults_require_lib (vaccinate_lib n h dflt) h"

section \<open>src/unnamed/part\_000\<close>

text \<open>
  The second version: \<open>moduleDir\<close> is a string or an array of strings, searched in
  order, and \<open>vaccinate\<close> takes no context.

  The loop of lines 36 to 45, \<open>moduleDirs.some(...)\<close>, over the variables \<open>dependency\<close>
  and \<open>ex\<close>: a directory under which Node's \<open>require\<close> returns sets \<open>dependency\<close>, resets
  \<open>ex\<close> to null and ends the loop; one under which it throws records the thrown value in
  \<open>ex\<close> and goes on.
\<close>

fun some_moduleDirs ::
    "host \<Rightarrow> string \<Rightarrow> string list \<Rightarrow> jsval \<times> jsval \<Rightarrow> (jsval \<times> jsval) \<times> event list" where
  "some_moduleDirs h module [] (dependency, ex) = ((dependency, ex), [])"
| "some_moduleDirs h module (dir # rest) (dependency, ex) =
     (case host_require h (dir @ ''/'' @ module) of
        Inr v \<Rightarrow> ((v, Null), [Host (dir @ ''/'' @ module)])
      | Inl ex' \<Rightarrow>
          (case some_moduleDirs h module rest (dependency, ex') of
             (vars, tr) \<Rightarrow> (vars, Host (dir @ ''/'' @ module) # tr)))"

text \<open>Line 34: a string is a list of one directory.\<close>

fun dir_list :: "moduleDirs \<Rightarrow> string list" where
  "dir_list (DirStr s) = [s]"
| "dir_list (DirArr ds) = ds"

text \<open>
  Lines 32 to 50: the value of \<open>dependency\<close> when line 52 is reached, or the value
  thrown before; \<open>dependency\<close> and \<open>ex\<close> start undefined. The list of directories is
  read on line 34 only when line 33 found \<open>options.moduleDir\<close> truthy.
\<close>

definition load_part000 :: "host \<Rightarrow> string \<Rightarrow> options \<Rightarrow> event list \<times> (jsval + jsval)" where
  "load_part000 h module opts =
     (if (case moduleDir opts of None \<Rightarrow> False | Some md \<Rightarrow> dir_truthy md)
         \<and> startsWith module ''./''
      then
        (case some_moduleDirs h module
                (case moduleDir opts of None \<Rightarrow> [] | Some md \<Rightarrow> dir_list md)
                (Undefined, Undefined) of
           ((dependency, ex), tr) \<Rightarrow>
             if truthy ex then (tr, Inl ex) else (tr, Inr dependency))
      else ([Host module], host_require h module))"

text \<open>
  \<open>vaccinate.defaults.require\<close> (lines 29 to 57). Its first argument is the function
  \<open>vaccinate\<close> that line 53 calls, applied to the dependency and the options.
\<close>

definition defaults_require_part000 ::
    "(nat \<Rightarrow> options option \<Rightarrow> jsval run) \<Rightarrow> host \<Rightarrow> jsval \<Rightarrow> options \<Rightarrow> jsval run" where
  "defaults_require_part000 vaccinate h module opts =
     (case module of
        Str name \<Rightarrow>
          (case load_part000 h name opts of
             (tr, Inl ex) \<Rightarrow> Some (opts, tr, Inl ex)
           | (tr, Inr dependency) \<Rightarrow>
               (case dependency of
                  Fun f \<Rightarrow>
                    if isArray (fun_prop h f (prop_key (dependenciesProperty opts))) then
                      (case vaccinate f (Some opts) of
                         None \<Rightarrow> None
                       | Some (opts', tr', r) \<Rightarrow> Some (opts', tr @ tr', r))
                    else Some (opts, tr, Inr dependency)
                | _ \<Rightarrow> Some (opts, tr, Inr dependency)))
      | _ \<Rightarrow> Some (opts, [], Inr module))"

text \<open>
  \<open>vaccinate\<close> (lines 18 to 25): no context parameter, the receiver is null. The depth
  bound is as above.
\<close>

fun vaccinate_part000 ::
    "nat \<Rightarrow> host \<Rightarrow> options \<Rightarrow> nat \<Rightarrow> options option \<Rightarrow> jsval run" where
  "vaccinate_part000 0 h dflt func options = None"
| "vaccinate_part000 (Suc n) h dflt func options =
     (let opts = lodash_defaults (case options of None \<Rightarrow> empty_object | Some given \<Rightarrow> given) dflt in
      case fun_prop h func (prop_key (dependenciesProperty opts)) of
        Arr modules \<Rightarrow>
          (case map_require
                  (call_require (defaults_require_part000 (vaccinate_part000 n h dflt) h) h)
                  opts modules of
             None \<Rightarrow> None
           | Some (opts', tr, Inl ex) \<Rightarrow> Some (opts', tr, Inl ex)
           | Some (opts', tr, Inr args) \<Rightarrow>
               Some (opts', tr @ [Invoke func Null args], fun_apply h func Null args))
      | _ \<Rightarrow> Some (opts, [], Inl TypeError))"

text \<open>
  A call \<open>vaccinate(func, options, context)\<close> of this version: the function declares two
  parameters (line 18), and JavaScript drops an argument beyond them.
\<close>

definition vaccinate_part000_with_context ::
    "nat \<Rightarrow> host \<Rightarrow> options \<Rightarrow> nat \<Rightarrow> options option \<Rightarrow> jsval \<Rightarrow> jsval run" where
  "vaccinate_part000_with_context n h dflt func options ctx = vaccinate_part000 n h dflt func options"

text \<open>The default loader of this version, with the nested calls bounded by \<open>n\<close>.\<close>

definition require_part000 :: "nat \<Rightarrow> host \<Rightarrow> options \<Rightarrow> jsval \<Rightarrow> options \<Rightarrow> jsval run" where
  "require_part000 n h dflt = defaults_require_part000 (vaccinate_part000 n h dflt) h"

section \<open>Reading a trace\<close>


fun invocations :: "event list \<Rightarrow> (nat \<times> jsval \<times> jsval list) list" where
  "invocations [] = []"
| "invocations (Invoke f this args # es) = (f, this, args) # invocations es"
| "invocations (Host p # es) = invocations es"
| "invocations (Loader m sub # es) = invocations es"

section \<open>A host to run the code on\<close>

text \<open>
  Modules: a logger object under \<open>/app\<close> and another under \<open>/alt\<close>; a user factory
  under \<open>/app\<close> that declares the logger; under \<open>/bad\<close> a logger module whose code
  executes \<open>throw null\<close>; nothing else is found. Functions: 0 declares the user factory
  and the logger, 2 is the user factory, 4 declares nothing (an empty array), 6 has no
  declaration, 8 declares the logger alone, 10 declares the logger, a module that does
  not exist, and the user factory, 12 declares the name "logger". The user factory
  returns an object; every other function returns its receiver and arguments as an
  array. A caller's loader 0 knows the name "logger" only.
\<close>

definition demo_host :: host where
  "demo_host =
     \<lparr>host_require = (\<lambda>p.
        if p = ''/app/./logger'' then Inr (Obj 1)
        else if p = ''/alt/./logger'' then Inr (Obj 3)
        else if p = ''/app/./user'' then Inr (Fun 2)
        else if p = ''/bad/./logger'' then Inl Null
        else Inl (ErrorObj (''Cannot find module '' @ p))),
      fun_prop = (\<lambda>f k.
        if k = ''$vaccinations'' \<and> f = 0 then Arr [Str ''./user'', Str ''./logger'']
        else if k = ''$vaccinations'' \<and> f = 2 then Arr [Str ''./logger'']
        else if k = ''$vaccinations'' \<and> f = 4 then Arr []
        else if k = ''$vaccinations'' \<and> f = 8 then Arr [Str ''./logger'']
        else if k = ''$vaccinations'' \<and> f = 10
          then Arr [Str ''./logger'', Str ''./missing'', Str ''./user'']
        else if k = ''$vaccinations'' \<and> f = 12 then Arr [Str ''logger'']
        else Undefined),
      fun_apply = (\<lambda>f this args. if f = 2 then Inr (Obj 5) else Inr (Arr (this # args))),
      custom_require = (\<lambda>k m opts.
        if m = Str ''logger'' then Inr (Obj 9) else Inl (ErrorObj ''Module not found''))\<rparr>"

definition app_options :: options where
  "app_options =
     \<lparr>dependenciesProperty = None, moduleDir = Some (DirStr ''/app''), require = None\<rparr>"



definition merged_app_options :: options where
  "merged_app_options =
     \<lparr>dependenciesProperty = Some ''$vaccinations'', moduleDir = Some (DirStr ''/app''),
      require = Some DefaultRequire\<rparr>"

definition no_dirs_options :: options where
  "no_dirs_options =
     \<lparr>dependenciesProperty = Some ''$vaccinations'', moduleDir = Some (DirArr []),
      require = Some DefaultRequire\<rparr>"

definition search_options :: options where
  "search_options =
     \<lparr>dependenciesProperty = Some ''$vaccinations'',
      moduleDir = Some (DirArr [''/nowhere'', ''/alt'', ''/app'']),
      require = Some DefaultRequire\<rparr>"

definition failing_options :: options where
  "failing_options =
     \<lparr>dependenciesProperty = Some ''$vaccinations'',
      moduleDir = Some (DirArr [''/nowhere'', ''/bad'']),
      require = Some DefaultRequire\<rparr>"

definition bad_dir_options :: options where
  "bad_dir_options =
     \<lparr>dependenciesProperty = Some ''$vaccinations'', moduleDir = Some (DirStr ''/bad''),
      require = Some DefaultRequire\<rparr>"

section \<open>Lemmas about the loop, the loaders and a call\<close>

subsection \<open>The merge, traces, the callback and the loop\<close>

text \<open>
  Merging twice is merging once, which is why the nested calls, which merge the defaults
  into the same object again, leave it as the first merge made it.
\<close>

lemma lodash_defaults_idem:
  "lodash_defaults (lodash_defaults object source) source = lodash_defaults object source"
  by (simp add: lodash_defaults_def split: option.splits)

lemma is_object_truthy: "is_object v \<Longrightarrow> truthy v"
  by (cases v) simp_all

lemma invocations_append: "invocations (xs @ ys) = invocations xs @ invocations ys"
  by (induction xs rule: invocations.induct) simp_all


lemma call_require_cases:
  assumes "call_require dl h m opts = Some (opts', tr, r)"
  shows "(require opts = None \<and> opts' = opts \<and> tr = [] \<and> r = Inl TypeError)
       \<or> (\<exists>k. require opts = Some (CustomRequire k) \<and> opts' = opts \<and> tr = [Loader m []]
              \<and> r = custom_require h k m opts)
       \<or> (\<exists>sub. require opts = Some DefaultRequire \<and> tr = [Loader m sub]
              \<and> dl m opts = Some (opts', sub, r))"
  using assms by (auto simp: call_require_def split: option.splits loader.splits)

lemma call_require_invocations:
  "call_require dl h m opts = Some (opts', tr, r) \<Longrightarrow> invocations tr = []"
  by (auto dest: call_require_cases)



lemma call_require_keeps:
  assumes dl: "\<forall>m o2 tr r. dl m opts = Some (o2, tr, r) \<longrightarrow> o2 = opts"
    and run: "call_require dl h m opts = Some (opts', tr, r)"
  shows "opts' = opts"
  using call_require_cases [OF run] dl by blast

lemma call_require_mono:
  assumes dl: "\<forall>m opts x. dl1 m opts = Some x \<longrightarrow> dl2 m opts = Some x"
    and run: "call_require dl1 h m opts = Some y"
  shows "call_require dl2 h m opts = Some y"
proof -
  obtain o' tr r where y: "y = (o', tr, r)" by (cases y)
  from call_require_cases [OF run [unfolded y]] dl show ?thesis
    unfolding y by (auto simp: call_require_def)
qed



lemma map_require_invocations:
  assumes cb: "\<forall>m o1 o2 tr r. cb m o1 = Some (o2, tr, r) \<longrightarrow> invocations tr = []"
    and run: "map_require cb opts ms = Some (opts', tr, r)"
  shows "invocations tr = []"
  using run
proof (induction ms arbitrary: opts opts' tr r)
  case Nil
  then show ?case by simp
next
  case (Cons m ms)
  from Cons.prems obtain o1 t1 r1 where first: "cb m opts = Some (o1, t1, r1)"
    by (auto split: option.splits)
  from cb first have t1: "invocations t1 = []" by blast
  show ?case
  proof (cases r1)
    case (Inl ex)
    with Cons.prems first t1 show ?thesis by simp
  next
    case (Inr v)
    with Cons.prems first obtain o2 t2 r2 where
      rest: "map_require cb o1 ms = Some (o2, t2, r2)" and tr: "tr = t1 @ t2"
      by (auto split: option.splits sum.splits)
    from Cons.IH [OF rest] t1 tr show ?thesis by (simp add: invocations_append)
  qed
qed

lemma map_require_keeps:
  assumes cb: "\<forall>m o2 tr r. cb m opts = Some (o2, tr, r) \<longrightarrow> o2 = opts"
    and run: "map_require cb opts ms = Some (opts', tr, r)"
  shows "opts' = opts"
  using run
proof (induction ms arbitrary: opts' tr r)
  case Nil
  then show ?case by simp
next
  case (Cons m ms)
  from Cons.prems obtain o1 t1 r1 where first: "cb m opts = Some (o1, t1, r1)"
    by (auto split: option.splits)
  from cb first have o1: "o1 = opts" by blast
  show ?case
  proof (cases r1)
    case (Inl ex)
    with Cons.prems first o1 show ?thesis by simp
  next
    case (Inr v)
    with Cons.prems first o1 obtain t2 r2 where
      rest: "map_require cb opts ms = Some (opts', t2, r2)"
      by (auto split: option.splits sum.splits)
    from Cons.IH [OF rest] show ?thesis .
  qed
qed

lemma map_require_cong_at:
  assumes agree: "\<forall>m. cb1 m opts = cb2 m opts"
    and keeps: "\<forall>m o' tr r. cb1 m opts = Some (o', tr, r) \<longrightarrow> o' = opts"
  shows "map_require cb1 opts ms = map_require cb2 opts ms"
proof (induction ms)
  case Nil
  then show ?case by simp
next
  case (Cons m ms)
  show ?case
  proof (cases "cb1 m opts")
    case None
    with agree have "cb2 m opts = None" by simp
    with None show ?thesis by simp
  next
    case (Some res)
    obtain o' tr r where res: "res = (o', tr, r)" by (cases res)
    with Some keeps have o': "o' = opts" by blast
    from agree Some have "cb2 m opts = Some res" by simp
    with Some res o' Cons.IH show ?thesis by simp
  qed
qed

lemma map_require_mono:
  assumes cb: "\<forall>m opts x. cb1 m opts = Some x \<longrightarrow> cb2 m opts = Some x"
    and run: "map_require cb1 opts ms = Some y"
  shows "map_require cb2 opts ms = Some y"
  using run
proof (induction ms arbitrary: opts y)
  case Nil
  then show ?case by simp
next
  case (Cons m ms)
  from Cons.prems obtain o1 t1 r1 where first: "cb1 m opts = Some (o1, t1, r1)"
    by (auto split: option.splits)
  with cb have first': "cb2 m opts = Some (o1, t1, r1)" by blast
  show ?case
  proof (cases r1)
    case (Inl ex)
    with Cons.prems first first' show ?thesis by simp
  next
    case (Inr v)
    with Cons.prems first obtain z where rest: "map_require cb1 o1 ms = Some z"
      by (auto split: option.splits)
    from Cons.IH [OF rest] have "map_require cb2 o1 ms = Some z" .
    with Cons.prems first first' Inr rest show ?thesis by simp
  qed
qed



subsection \<open>The first version\<close>

text \<open>
  The cases of the default loader; the two outcomes of line 22; the options object a call
  leaves (\<open>vaccinate_lib_options\<close>); what a call that returns has done
  (\<open>vaccinate_lib_outcome\<close>); and that a deeper bound changes no run that stays within
  the bound (\<open>vaccinate_lib_deeper\<close>).
\<close>

lemma defaults_require_lib_cases:
  assumes "defaults_require_lib vac h m opts = Some (opts', tr, r)"
  shows "((\<forall>name. m \<noteq> Str name) \<and> opts' = opts \<and> tr = [] \<and> r = Inr m)
       \<or> (\<exists>name. m = Str name \<and> opts' = opts \<and> tr = [Host (resolve_name_lib name opts)]
             \<and> r = host_require h (resolve_name_lib name opts)
             \<and> (\<forall>f. r = Inr (Fun f) \<longrightarrow>
                    \<not> isArray (fun_prop h f (prop_key (dependenciesProperty opts)))))
       \<or> (\<exists>name f sub. m = Str name
             \<and> host_require h (resolve_name_lib name opts) = Inr (Fun f)
             \<and> isArray (fun_prop h f (prop_key (dependenciesProperty opts)))
             \<and> vac f (Some opts) Undefined = Some (opts', sub, r)
             \<and> tr = Host (resolve_name_lib name opts) # sub)"
proof (cases m)
  case (Str name)
  show ?thesis
  proof (cases "host_require h (resolve_name_lib name opts)")
    case (Inl ex)
    with Str assms show ?thesis by (auto simp: defaults_require_lib_def Let_def)
  next
    case (Inr dependency)
    show ?thesis
    proof (cases dependency)
      case (Fun f)
      with Str Inr assms show ?thesis
        by (auto simp: defaults_require_lib_def Let_def split: if_splits option.splits)
    qed (use Str Inr assms in \<open>auto simp: defaults_require_lib_def Let_def\<close>)
  qed
qed (use assms in \<open>auto simp: defaults_require_lib_def Let_def\<close>)

lemma defaults_require_lib_keeps:
  assumes vac: "\<forall>f o2 tr r. vac f (Some opts) Undefined = Some (o2, tr, r) \<longrightarrow> o2 = opts"
    and run: "defaults_require_lib vac h m opts = Some (opts', tr, r)"
  shows "opts' = opts"
  using defaults_require_lib_cases [OF run] vac by blast

lemma defaults_require_lib_mono:
  assumes vac: "\<forall>f options ctx x. vac1 f options ctx = Some x \<longrightarrow> vac2 f options ctx = Some x"
    and run: "defaults_require_lib vac1 h m opts = Some y"
  shows "defaults_require_lib vac2 h m opts = Some y"
proof (cases m)
  case (Str name)
  show ?thesis
  proof (cases "host_require h (resolve_name_lib name opts)")
    case (Inl ex)
    with Str run show ?thesis by (simp add: defaults_require_lib_def)
  next
    case (Inr dependency)
    show ?thesis
    proof (cases dependency)
      case (Fun f)
      show ?thesis
      proof (cases "isArray (fun_prop h f (prop_key (dependenciesProperty opts)))")
        case True
        with Str Inr Fun run obtain z where
          inner: "vac1 f (Some opts) Undefined = Some z"
          by (auto simp: defaults_require_lib_def split: option.splits)
        with vac have "vac2 f (Some opts) Undefined = Some z" by blast
        with inner True Str Inr Fun run show ?thesis
          by (simp add: defaults_require_lib_def)
      next
        case False
        with Str Inr Fun run show ?thesis by (simp add: defaults_require_lib_def)
      qed
    qed (use Str Inr run in \<open>simp_all add: defaults_require_lib_def\<close>)
  qed
qed (use run in \<open>simp_all add: defaults_require_lib_def\<close>)

lemma vaccinate_lib_Suc:
  "vaccinate_lib (Suc n) h dflt func options ctx =
     (case fun_prop h func (prop_key (dependenciesProperty
              (lodash_defaults (case options of None \<Rightarrow> empty_object | Some given \<Rightarrow> given) dflt))) of
        Arr modules \<Rightarrow>
          (case map_require (call_require (require_lib n h dflt) h)
                  (lodash_defaults (case options of None \<Rightarrow> empty_object | Some given \<Rightarrow> given) dflt)
                  modules of
             None \<Rightarrow> None
           | Some (opts', tr, Inl ex) \<Rightarrow> Some (opts', tr, Inl ex)
           | Some (opts', tr, Inr args) \<Rightarrow>
               Some (opts', tr @ [Invoke func (js_or ctx Null) args],
                     fun_apply h func (js_or ctx Null) args))
      | _ \<Rightarrow> Some (lodash_defaults (case options of None \<Rightarrow> empty_object | Some given \<Rightarrow> given) dflt,
                  [], Inl TypeError))"
  unfolding require_lib_def by (simp add: Let_def)

lemma vaccinate_lib_not_array:
  assumes "\<not> isArray (fun_prop h func (prop_key (dependenciesProperty opts)))"
    and "opts = lodash_defaults (case options of None \<Rightarrow> empty_object | Some given \<Rightarrow> given) dflt"
  shows "vaccinate_lib (Suc n) h dflt func options ctx = Some (opts, [], Inl TypeError)"
  using assms
  by (cases "fun_prop h func (prop_key (dependenciesProperty opts))")
     (simp_all add: vaccinate_lib_Suc del: vaccinate_lib.simps)

lemma vaccinate_lib_array:
  assumes "fun_prop h func (prop_key (dependenciesProperty opts)) = Arr modules"
    and "opts = lodash_defaults (case options of None \<Rightarrow> empty_object | Some given \<Rightarrow> given) dflt"
  shows "vaccinate_lib (Suc n) h dflt func options ctx =
     (case map_require (call_require (require_lib n h dflt) h) opts modules of
             None \<Rightarrow> None
           | Some (opts', tr, Inl ex) \<Rightarrow> Some (opts', tr, Inl ex)
           | Some (opts', tr, Inr args) \<Rightarrow>
               Some (opts', tr @ [Invoke func (js_or ctx Null) args],
                     fun_apply h func (js_or ctx Null) args))"
  using assms by (simp add: vaccinate_lib_Suc del: vaccinate_lib.simps)

lemma vaccinate_lib_options:
  "vaccinate_lib n h dflt func options ctx = Some (opts', tr, r) \<Longrightarrow>
   opts' = lodash_defaults (case options of None \<Rightarrow> empty_object | Some given \<Rightarrow> given) dflt"
proof (induction n arbitrary: func options ctx opts' tr r)
  case 0
  then show ?case by simp
next
  case (Suc n)
  define opts where "opts = lodash_defaults (case options of None \<Rightarrow> empty_object | Some given \<Rightarrow> given) dflt"
  have fixp: "lodash_defaults opts dflt = opts"
    by (simp add: opts_def lodash_defaults_idem)
  have vac: "\<forall>f o2 tr r. vaccinate_lib n h dflt f (Some opts) Undefined = Some (o2, tr, r) \<longrightarrow> o2 = opts"
  proof (intro allI impI)
    fix f o2 tr r
    assume "vaccinate_lib n h dflt f (Some opts) Undefined = Some (o2, tr, r)"
    from Suc.IH [OF this] fixp show "o2 = opts" by simp
  qed
  have dl: "\<forall>m o2 tr r. require_lib n h dflt m opts = Some (o2, tr, r) \<longrightarrow> o2 = opts"
    unfolding require_lib_def
    using defaults_require_lib_keeps [where vac = "vaccinate_lib n h dflt" and opts = opts, OF vac]
    by blast
  have cb: "\<forall>m o2 tr r. call_require (require_lib n h dflt) h m opts = Some (o2, tr, r) \<longrightarrow> o2 = opts"
    using call_require_keeps [where dl = "require_lib n h dflt" and opts = opts, OF dl] by blast
  show ?case
  proof (cases "isArray (fun_prop h func (prop_key (dependenciesProperty opts)))")
    case False
    from vaccinate_lib_not_array [OF False opts_def] Suc.prems
    show ?thesis by (simp add: opts_def del: vaccinate_lib.simps)
  next
    case True
    then obtain modules where arr: "fun_prop h func (prop_key (dependenciesProperty opts)) = Arr modules"
      by (cases "fun_prop h func (prop_key (dependenciesProperty opts))") simp_all
    from Suc.prems vaccinate_lib_array [OF arr opts_def, of n ctx] obtain o2 t2 r2 where
      run: "map_require (call_require (require_lib n h dflt) h) opts modules = Some (o2, t2, r2)"
      and o2: "opts' = o2"
      by (auto simp del: vaccinate_lib.simps split: option.splits sum.splits)
    from map_require_keeps [OF cb run] o2 show ?thesis by (simp add: opts_def)
  qed
qed

lemma vaccinate_lib_outcome:
  assumes "vaccinate_lib n h dflt func options ctx = Some (opts', tr, r)"
  shows "(invocations tr = [] \<and> (\<exists>ex. r = Inl ex))
       \<or> (\<exists>args. invocations tr = [(func, js_or ctx Null, args)]
              \<and> r = fun_apply h func (js_or ctx Null) args)"
proof (cases n)
  case 0
  with assms show ?thesis by simp
next
  case (Suc k)
  define opts where "opts = lodash_defaults (case options of None \<Rightarrow> empty_object | Some given \<Rightarrow> given) dflt"
  have cb: "\<forall>m o1 o2 tr r. call_require (require_lib k h dflt) h m o1 = Some (o2, tr, r)
              \<longrightarrow> invocations tr = []"
    using call_require_invocations by blast
  show ?thesis
  proof (cases "isArray (fun_prop h func (prop_key (dependenciesProperty opts)))")
    case False
    from vaccinate_lib_not_array [OF False opts_def, of k ctx] assms Suc
    show ?thesis by (auto simp del: vaccinate_lib.simps)
  next
    case True
    then obtain modules where arr: "fun_prop h func (prop_key (dependenciesProperty opts)) = Arr modules"
      by (cases "fun_prop h func (prop_key (dependenciesProperty opts))") simp_all
    from assms Suc vaccinate_lib_array [OF arr opts_def, of k ctx] obtain o2 t2 r2 where
      run: "map_require (call_require (require_lib k h dflt) h) opts modules = Some (o2, t2, r2)"
      by (auto simp del: vaccinate_lib.simps split: option.splits)
    have t2: "invocations t2 = []"
      using map_require_invocations [OF cb run] .
    show ?thesis
    proof (cases r2)
      case (Inl ex)
      with assms Suc vaccinate_lib_array [OF arr opts_def, of k ctx] run t2
      show ?thesis by (auto simp del: vaccinate_lib.simps)
    next
      case (Inr args)
      with assms Suc vaccinate_lib_array [OF arr opts_def, of k ctx] run t2
      show ?thesis by (auto simp: invocations_append simp del: vaccinate_lib.simps)
    qed
  qed
qed




lemma require_lib_declaring:
  assumes "host_require h (resolve_name_lib name opts) = Inr (Fun f)"
    and "isArray (fun_prop h f (prop_key (dependenciesProperty opts)))"
  shows "require_lib n h dflt (Str name) opts
           = (case vaccinate_lib n h dflt f (Some opts) Undefined of
                None \<Rightarrow> None
              | Some (opts', tr, r) \<Rightarrow> Some (opts', Host (resolve_name_lib name opts) # tr, r))"
  using assms by (simp add: require_lib_def defaults_require_lib_def)

lemma vaccinate_lib_Suc_depth:
  "vaccinate_lib n h dflt func options ctx = Some x \<Longrightarrow>
   vaccinate_lib (Suc n) h dflt func options ctx = Some x"
proof (induction n arbitrary: func options ctx x)
  case 0
  then show ?case by simp
next
  case (Suc n)
  define opts where "opts = lodash_defaults (case options of None \<Rightarrow> empty_object | Some given \<Rightarrow> given) dflt"
  have vac: "\<forall>f options ctx x. vaccinate_lib n h dflt f options ctx = Some x
               \<longrightarrow> vaccinate_lib (Suc n) h dflt f options ctx = Some x"
    using Suc.IH by blast
  have dl: "\<forall>m opts x. require_lib n h dflt m opts = Some x
               \<longrightarrow> require_lib (Suc n) h dflt m opts = Some x"
    unfolding require_lib_def
    using defaults_require_lib_mono [where ?vac1.0 = "vaccinate_lib n h dflt"
        and ?vac2.0 = "vaccinate_lib (Suc n) h dflt", OF vac] by blast
  have cb: "\<forall>m opts x. call_require (require_lib n h dflt) h m opts = Some x
               \<longrightarrow> call_require (require_lib (Suc n) h dflt) h m opts = Some x"
    using call_require_mono [where ?dl1.0 = "require_lib n h dflt"
        and ?dl2.0 = "require_lib (Suc n) h dflt", OF dl] by blast
  show ?case
  proof (cases "isArray (fun_prop h func (prop_key (dependenciesProperty opts)))")
    case False
    from vaccinate_lib_not_array [OF False opts_def, of n ctx]
      vaccinate_lib_not_array [OF False opts_def, of "Suc n" ctx] Suc.prems
    show ?thesis by (simp del: vaccinate_lib.simps)
  next
    case True
    then obtain modules where arr: "fun_prop h func (prop_key (dependenciesProperty opts)) = Arr modules"
      by (cases "fun_prop h func (prop_key (dependenciesProperty opts))") simp_all
    from Suc.prems vaccinate_lib_array [OF arr opts_def, of n ctx] obtain y where
      run: "map_require (call_require (require_lib n h dflt) h) opts modules = Some y"
      by (auto simp del: vaccinate_lib.simps split: option.splits)
    have "map_require (call_require (require_lib (Suc n) h dflt) h) opts modules = Some y"
      using map_require_mono [where ?cb1.0 = "call_require (require_lib n h dflt) h"
          and ?cb2.0 = "call_require (require_lib (Suc n) h dflt) h", OF cb run] .
    with run Suc.prems vaccinate_lib_array [OF arr opts_def, of n ctx]
      vaccinate_lib_array [OF arr opts_def, of "Suc n" ctx]
    show ?thesis by (simp del: vaccinate_lib.simps)
  qed
qed

lemma vaccinate_lib_deeper:
  "vaccinate_lib n h dflt func options ctx = Some x \<Longrightarrow>
   vaccinate_lib (n + k) h dflt func options ctx = Some x"
  by (induction k) (simp_all add: vaccinate_lib_Suc_depth del: vaccinate_lib.simps)

subsection \<open>The second version\<close>

text \<open>
  The search through the directories: every directory fails, or one succeeds after others
  failed. Then the same facts as for the first version.
\<close>

lemma some_moduleDirs_all_fail:
  assumes "\<forall>d \<in> set ds. \<exists>ex. host_require h (d @ ''/'' @ name) = Inl ex"
  shows "some_moduleDirs h name ds (dep, ex0) =
           ((dep, (if ds = [] then ex0
                   else (case host_require h (last ds @ ''/'' @ name) of Inl ex \<Rightarrow> ex | Inr v \<Rightarrow> v))),
            map (\<lambda>d. Host (d @ ''/'' @ name)) ds)"
  using assms
proof (induction ds arbitrary: ex0)
  case Nil
  then show ?case by simp
next
  case (Cons d ds)
  then obtain ex where ex: "host_require h (d @ ''/'' @ name) = Inl ex" by auto
  from Cons.prems have rest: "\<forall>d \<in> set ds. \<exists>ex. host_require h (d @ ''/'' @ name) = Inl ex"
    by simp
  show ?case using ex Cons.IH [OF rest, of ex] by simp
qed

lemma some_moduleDirs_first_success:
  assumes "\<forall>d \<in> set pre. \<exists>ex. host_require h (d @ ''/'' @ name) = Inl ex"
    and "host_require h (d @ ''/'' @ name) = Inr v"
  shows "some_moduleDirs h name (pre @ d # post) (dep, ex0) =
           ((v, Null), map (\<lambda>d. Host (d @ ''/'' @ name)) (pre @ [d]))"
  using assms(1)
proof (induction pre arbitrary: ex0)
  case Nil
  then show ?case using assms(2) by simp
next
  case (Cons p pre)
  then obtain ex where ex: "host_require h (p @ ''/'' @ name) = Inl ex" by auto
  from Cons.prems have rest: "\<forall>d \<in> set pre. \<exists>ex. host_require h (d @ ''/'' @ name) = Inl ex"
    by simp
  show ?case using ex Cons.IH [OF rest, of ex] by simp
qed

lemma load_part000_relative:
  assumes "moduleDir opts = Some md" and "dir_truthy md" and "startsWith name ''./''"
  shows "load_part000 h name opts =
           (case some_moduleDirs h name (dir_list md) (Undefined, Undefined) of
              ((dependency, ex), tr) \<Rightarrow> if truthy ex then (tr, Inl ex) else (tr, Inr dependency))"
  using assms by (simp add: load_part000_def)

lemma load_part000_plain:
  assumes "moduleDir opts = None \<or> (\<exists>md. moduleDir opts = Some md \<and> \<not> dir_truthy md)
           \<or> \<not> startsWith name ''./''"
  shows "load_part000 h name opts = ([Host name], host_require h name)"
  using assms by (auto simp: load_part000_def)

lemma load_part000_all_fail:
  assumes dirs: "moduleDir opts = Some (DirArr ds)" and ne: "ds \<noteq> []"
    and rel: "startsWith name ''./''"
    and fails: "\<forall>d \<in> set ds. \<exists>ex. host_require h (d @ ''/'' @ name) = Inl ex"
    and last: "host_require h (last ds @ ''/'' @ name) = Inl ex"
  shows "load_part000 h name opts
           = (map (\<lambda>d. Host (d @ ''/'' @ name)) ds, if truthy ex then Inl ex else Inr Undefined)"
proof -
  have "some_moduleDirs h name ds (Undefined, Undefined)
          = ((Undefined, ex), map (\<lambda>d. Host (d @ ''/'' @ name)) ds)"
    using some_moduleDirs_all_fail [OF fails, of Undefined Undefined] ne last by simp
  with load_part000_relative [OF dirs _ rel, of h] show ?thesis by simp
qed

lemma load_part000_invocations:
  "load_part000 h name opts = (tr, r) \<Longrightarrow> invocations tr = []"
proof -
  have loop: "invocations (snd (some_moduleDirs h name ds vars)) = []" for ds vars
  proof (induction ds arbitrary: vars)
    case Nil
    then show ?case by (cases vars) simp
  next
    case (Cons d ds)
    obtain dep ex where vars: "vars = (dep, ex)" by (cases vars)
    show ?case
    proof (cases "host_require h (d @ ''/'' @ name)")
      case (Inl ex')
      with Cons.IH [of "(dep, ex')"] vars show ?thesis
        by (auto split: prod.splits)
    next
      case (Inr v)
      with vars show ?thesis by simp
    qed
  qed
  assume "load_part000 h name opts = (tr, r)"
  then show ?thesis
    using loop [of "case moduleDir opts of None \<Rightarrow> [] | Some md \<Rightarrow> dir_list md" "(Undefined, Undefined)"]
    by (auto simp: load_part000_def split: if_splits prod.splits)
qed

lemma defaults_require_part000_cases:
  assumes "defaults_require_part000 vac h m opts = Some (opts', tr, r)"
  shows "((\<forall>name. m \<noteq> Str name) \<and> opts' = opts \<and> tr = [] \<and> r = Inr m)
       \<or> (\<exists>name. m = Str name \<and> opts' = opts \<and> load_part000 h name opts = (tr, r)
             \<and> (\<forall>f. r = Inr (Fun f) \<longrightarrow>
                    \<not> isArray (fun_prop h f (prop_key (dependenciesProperty opts)))))
       \<or> (\<exists>name f tr0 sub. m = Str name
             \<and> load_part000 h name opts = (tr0, Inr (Fun f))
             \<and> isArray (fun_prop h f (prop_key (dependenciesProperty opts)))
             \<and> vac f (Some opts) = Some (opts', sub, r)
             \<and> tr = tr0 @ sub)"
proof (cases m)
  case (Str name)
  obtain tr0 r0 where load: "load_part000 h name opts = (tr0, r0)"
    by (cases "load_part000 h name opts")
  show ?thesis
  proof (cases r0)
    case (Inl ex)
    with Str load assms show ?thesis by (auto simp: defaults_require_part000_def)
  next
    case (Inr dependency)
    show ?thesis
    proof (cases dependency)
      case (Fun f)
      with Str Inr load assms show ?thesis
        by (auto simp: defaults_require_part000_def split: if_splits option.splits)
    qed (use Str Inr load assms in \<open>auto simp: defaults_require_part000_def\<close>)
  qed
qed (use assms in \<open>auto simp: defaults_require_part000_def\<close>)

lemma defaults_require_part000_keeps:
  assumes vac: "\<forall>f o2 tr r. vac f (Some opts) = Some (o2, tr, r) \<longrightarrow> o2 = opts"
    and run: "defaults_require_part000 vac h m opts = Some (opts', tr, r)"
  shows "opts' = opts"
  using defaults_require_part000_cases [OF run] vac by blast

lemma defaults_require_part000_mono:
  assumes vac: "\<forall>f options x. vac1 f options = Some x \<longrightarrow> vac2 f options = Some x"
    and run: "defaults_require_part000 vac1 h m opts = Some y"
  shows "defaults_require_part000 vac2 h m opts = Some y"
proof (cases m)
  case (Str name)
  obtain tr0 r0 where load: "load_part000 h name opts = (tr0, r0)"
    by (cases "load_part000 h name opts")
  show ?thesis
  proof (cases r0)
    case (Inl ex)
    with Str load run show ?thesis by (simp add: defaults_require_part000_def)
  next
    case (Inr dependency)
    show ?thesis
    proof (cases dependency)
      case (Fun f)
      show ?thesis
      proof (cases "isArray (fun_prop h f (prop_key (dependenciesProperty opts)))")
        case True
        with Str load Inr Fun run obtain z where
          inner: "vac1 f (Some opts) = Some z"
          by (auto simp: defaults_require_part000_def split: option.splits)
        with vac have "vac2 f (Some opts) = Some z" by blast
        with inner True Str load Inr Fun run show ?thesis
          by (simp add: defaults_require_part000_def)
      next
        case False
        with Str load Inr Fun run show ?thesis by (simp add: defaults_require_part000_def)
      qed
    qed (use Str load Inr run in \<open>simp_all add: defaults_require_part000_def\<close>)
  qed
qed (use run in \<open>simp_all add: defaults_require_part000_def\<close>)

lemma vaccinate_part000_Suc:
  "vaccinate_part000 (Suc n) h dflt func options =
     (case fun_prop h func (prop_key (dependenciesProperty
              (lodash_defaults (case options of None \<Rightarrow> empty_object | Some given \<Rightarrow> given) dflt))) of
        Arr modules \<Rightarrow>
          (case map_require (call_require (require_part000 n h dflt) h)
                  (lodash_defaults (case options of None \<Rightarrow> empty_object | Some given \<Rightarrow> given) dflt)
                  modules of
             None \<Rightarrow> None
           | Some (opts', tr, Inl ex) \<Rightarrow> Some (opts', tr, Inl ex)
           | Some (opts', tr, Inr args) \<Rightarrow>
               Some (opts', tr @ [Invoke func Null args], fun_apply h func Null args))
      | _ \<Rightarrow> Some (lodash_defaults (case options of None \<Rightarrow> empty_object | Some given \<Rightarrow> given) dflt,
                  [], Inl TypeError))"
  unfolding require_part000_def by (simp add: Let_def)

lemma vaccinate_part000_not_array:
  assumes "\<not> isArray (fun_prop h func (prop_key (dependenciesProperty opts)))"
    and "opts = lodash_defaults (case options of None \<Rightarrow> empty_object | Some given \<Rightarrow> given) dflt"
  shows "vaccinate_part000 (Suc n) h dflt func options = Some (opts, [], Inl TypeError)"
  using assms
  by (cases "fun_prop h func (prop_key (dependenciesProperty opts))")
     (simp_all add: vaccinate_part000_Suc del: vaccinate_part000.simps)

lemma vaccinate_part000_array:
  assumes "fun_prop h func (prop_key (dependenciesProperty opts)) = Arr modules"
    and "opts = lodash_defaults (case options of None \<Rightarrow> empty_object | Some given \<Rightarrow> given) dflt"
  shows "vaccinate_part000 (Suc n) h dflt func options =
     (case map_require (call_require (require_part000 n h dflt) h) opts modules of
             None \<Rightarrow> None
           | Some (opts', tr, Inl ex) \<Rightarrow> Some (opts', tr, Inl ex)
           | Some (opts', tr, Inr args) \<Rightarrow>
               Some (opts', tr @ [Invoke func Null args], fun_apply h func Null args))"
  using assms by (simp add: vaccinate_part000_Suc del: vaccinate_part000.simps)

lemma vaccinate_part000_options:
  "vaccinate_part000 n h dflt func options = Some (opts', tr, r) \<Longrightarrow>
   opts' = lodash_defaults (case options of None \<Rightarrow> empty_object | Some given \<Rightarrow> given) dflt"
proof (induction n arbitrary: func options opts' tr r)
  case 0
  then show ?case by simp
next
  case (Suc n)
  define opts where "opts = lodash_defaults (case options of None \<Rightarrow> empty_object | Some given \<Rightarrow> given) dflt"
  have fixp: "lodash_defaults opts dflt = opts"
    by (simp add: opts_def lodash_defaults_idem)
  have vac: "\<forall>f o2 tr r. vaccinate_part000 n h dflt f (Some opts) = Some (o2, tr, r) \<longrightarrow> o2 = opts"
  proof (intro allI impI)
    fix f o2 tr r
    assume "vaccinate_part000 n h dflt f (Some opts) = Some (o2, tr, r)"
    from Suc.IH [OF this] fixp show "o2 = opts" by simp
  qed
  have dl: "\<forall>m o2 tr r. require_part000 n h dflt m opts = Some (o2, tr, r) \<longrightarrow> o2 = opts"
    unfolding require_part000_def
    using defaults_require_part000_keeps [where vac = "vaccinate_part000 n h dflt" and opts = opts, OF vac]
    by blast
  have cb: "\<forall>m o2 tr r. call_require (require_part000 n h dflt) h m opts = Some (o2, tr, r) \<longrightarrow> o2 = opts"
    using call_require_keeps [where dl = "require_part000 n h dflt" and opts = opts, OF dl] by blast
  show ?case
  proof (cases "isArray (fun_prop h func (prop_key (dependenciesProperty opts)))")
    case False
    from vaccinate_part000_not_array [OF False opts_def] Suc.prems
    show ?thesis by (simp add: opts_def del: vaccinate_part000.simps)
  next
    case True
    then obtain modules where arr: "fun_prop h func (prop_key (dependenciesProperty opts)) = Arr modules"
      by (cases "fun_prop h func (prop_key (dependenciesProperty opts))") simp_all
    from Suc.prems vaccinate_part000_array [OF arr opts_def, of n] obtain o2 t2 r2 where
      run: "map_require (call_require (require_part000 n h dflt) h) opts modules = Some (o2, t2, r2)"
      and o2: "opts' = o2"
      by (auto simp del: vaccinate_part000.simps split: option.splits sum.splits)
    from map_require_keeps [OF cb run] o2 show ?thesis by (simp add: opts_def)
  qed
qed

lemma vaccinate_part000_outcome:
  assumes "vaccinate_part000 n h dflt func options = Some (opts', tr, r)"
  shows "(invocations tr = [] \<and> (\<exists>ex. r = Inl ex))
       \<or> (\<exists>args. invocations tr = [(func, Null, args)] \<and> r = fun_apply h func Null args)"
proof (cases n)
  case 0
  with assms show ?thesis by simp
next
  case (Suc k)
  define opts where "opts = lodash_defaults (case options of None \<Rightarrow> empty_object | Some given \<Rightarrow> given) dflt"
  have cb: "\<forall>m o1 o2 tr r. call_require (require_part000 k h dflt) h m o1 = Some (o2, tr, r)
              \<longrightarrow> invocations tr = []"
    using call_require_invocations by blast
  show ?thesis
  proof (cases "isArray (fun_prop h func (prop_key (dependenciesProperty opts)))")
    case False
    from vaccinate_part000_not_array [OF False opts_def, of k] assms Suc
    show ?thesis by (auto simp del: vaccinate_part000.simps)
  next
    case True
    then obtain modules where arr: "fun_prop h func (prop_key (dependenciesProperty opts)) = Arr modules"
      by (cases "fun_prop h func (prop_key (dependenciesProperty opts))") simp_all
    from assms Suc vaccinate_part000_array [OF arr opts_def, of k] obtain o2 t2 r2 where
      run: "map_require (call_require (require_part000 k h dflt) h) opts modules = Some (o2, t2, r2)"
      by (auto simp del: vaccinate_part000.simps split: option.splits)
    have t2: "invocations t2 = []"
      using map_require_invocations [OF cb run] .
    show ?thesis
    proof (cases r2)
      case (Inl ex)
      with assms Suc vaccinate_part000_array [OF arr opts_def, of k] run t2
      show ?thesis by (auto simp del: vaccinate_part000.simps)
    next
      case (Inr args)
      with assms Suc vaccinate_part000_array [OF arr opts_def, of k] run t2
      show ?thesis by (auto simp: invocations_append simp del: vaccinate_part000.simps)
    qed
  qed
qed

lemma require_part000_keeps:
  assumes "lodash_defaults opts dflt = opts"
    and "call_require (require_part000 n h dflt) h m opts = Some (opts', tr, r)"
  shows "opts' = opts"
proof -
  have vac: "\<forall>f o2 tr r. vaccinate_part000 n h dflt f (Some opts) = Some (o2, tr, r) \<longrightarrow> o2 = opts"
  proof (intro allI impI)
    fix f o2 tr r
    assume "vaccinate_part000 n h dflt f (Some opts) = Some (o2, tr, r)"
    from vaccinate_part000_options [OF this] assms(1) show "o2 = opts" by simp
  qed
  have dl: "\<forall>m o2 tr r. require_part000 n h dflt m opts = Some (o2, tr, r) \<longrightarrow> o2 = opts"
    unfolding require_part000_def
    using defaults_require_part000_keeps [where vac = "vaccinate_part000 n h dflt" and opts = opts, OF vac]
    by blast
  show ?thesis
    using call_require_keeps [where dl = "require_part000 n h dflt" and opts = opts, OF dl assms(2)] .
qed



lemma require_part000_declaring:
  assumes "load_part000 h name opts = (tr0, Inr (Fun f))"
    and "isArray (fun_prop h f (prop_key (dependenciesProperty opts)))"
  shows "require_part000 n h dflt (Str name) opts
           = (case vaccinate_part000 n h dflt f (Some opts) of
                None \<Rightarrow> None
              | Some (opts', tr, r) \<Rightarrow> Some (opts', tr0 @ tr, r))"
  using assms by (simp add: require_part000_def defaults_require_part000_def)

lemma vaccinate_part000_Suc_depth:
  "vaccinate_part000 n h dflt func options = Some x \<Longrightarrow>
   vaccinate_part000 (Suc n) h dflt func options = Some x"
proof (induction n arbitrary: func options x)
  case 0
  then show ?case by simp
next
  case (Suc n)
  define opts where "opts = lodash_defaults (case options of None \<Rightarrow> empty_object | Some given \<Rightarrow> given) dflt"
  have vac: "\<forall>f options x. vaccinate_part000 n h dflt f options = Some x
               \<longrightarrow> vaccinate_part000 (Suc n) h dflt f options = Some x"
    using Suc.IH by blast
  have dl: "\<forall>m opts x. require_part000 n h dflt m opts = Some x
               \<longrightarrow> require_part000 (Suc n) h dflt m opts = Some x"
    unfolding require_part000_def
    using defaults_require_part000_mono [where ?vac1.0 = "vaccinate_part000 n h dflt"
        and ?vac2.0 = "vaccinate_part000 (Suc n) h dflt", OF vac] by blast
  have cb: "\<forall>m opts x. call_require (require_part000 n h dflt) h m opts = Some x
               \<longrightarrow> call_require (require_part000 (Suc n) h dflt) h m opts = Some x"
    using call_require_mono [where ?dl1.0 = "require_part000 n h dflt"
        and ?dl2.0 = "require_part000 (Suc n) h dflt", OF dl] by blast
  show ?case
  proof (cases "isArray (fun_prop h func (prop_key (dependenciesProperty opts)))")
    case False
    from vaccinate_part000_not_array [OF False opts_def, of n]
      vaccinate_part000_not_array [OF False opts_def, of "Suc n"] Suc.prems
    show ?thesis by (simp del: vaccinate_part000.simps)
  next
    case True
    then obtain modules where arr: "fun_prop h func (prop_key (dependenciesProperty opts)) = Arr modules"
      by (cases "fun_prop h func (prop_key (dependenciesProperty opts))") simp_all
    from Suc.prems vaccinate_part000_array [OF arr opts_def, of n] obtain y where
      run: "map_require (call_require (require_part000 n h dflt) h) opts modules = Some y"
      by (auto simp del: vaccinate_part000.simps split: option.splits)
    have "map_require (call_require (require_part000 (Suc n) h dflt) h) opts modules = Some y"
      using map_require_mono [where ?cb1.0 = "call_require (require_part000 n h dflt) h"
          and ?cb2.0 = "call_require (require_part000 (Suc n) h dflt) h", OF cb run] .
    with run Suc.prems vaccinate_part000_array [OF arr opts_def, of n]
      vaccinate_part000_array [OF arr opts_def, of "Suc n"]
    show ?thesis by (simp del: vaccinate_part000.simps)
  qed
qed

lemma vaccinate_part000_deeper:
  "vaccinate_part000 n h dflt func options = Some x \<Longrightarrow>
   vaccinate_part000 (n + k) h dflt func options = Some x"
  by (induction k) (simp_all add: vaccinate_part000_Suc_depth del: vaccinate_part000.simps)

subsection \<open>The two versions side by side\<close>

text \<open>
  With \<open>moduleDir\<close> absent or a string, and a host whose \<open>require\<close> throws truthy values
  only, the second version without a context does what the first does.
\<close>

lemma load_part000_single:
  assumes truthy_throws: "\<forall>p ex. host_require h p = Inl ex \<longrightarrow> truthy ex"
    and single: "\<forall>ds. moduleDir opts \<noteq> Some (DirArr ds)"
  shows "load_part000 h name opts
           = ([Host (resolve_name_lib name opts)], host_require h (resolve_name_lib name opts))"
proof (cases "moduleDir opts")
  case None
  then show ?thesis by (simp add: load_part000_def resolve_name_lib_def)
next
  case (Some md)
  with single obtain s where md: "md = DirStr s" by (cases md) auto
  show ?thesis
  proof (cases "s \<noteq> [] \<and> startsWith name ''./''")
    case False
    with Some md show ?thesis by (auto simp: load_part000_def resolve_name_lib_def)
  next
    case True
    show ?thesis
    proof (cases "host_require h (s @ ''/'' @ name)")
      case (Inl ex)
      with truthy_throws have "truthy ex" by blast
      with Inl True Some md show ?thesis
        by (simp add: load_part000_def resolve_name_lib_def)
    next
      case (Inr v)
      with True Some md show ?thesis
        by (simp add: load_part000_def resolve_name_lib_def)
    qed
  qed
qed

lemma require_versions_agree:
  assumes truthy_throws: "\<forall>p ex. host_require h p = Inl ex \<longrightarrow> truthy ex"
    and single: "\<forall>ds. moduleDir opts \<noteq> Some (DirArr ds)"
    and inner: "\<forall>f. vaccinate_part000 n h dflt f (Some opts) = vaccinate_lib n h dflt f (Some opts) Undefined"
  shows "require_part000 n h dflt m opts = require_lib n h dflt m opts"
proof (cases m)
  case (Str name)
  show ?thesis
  proof (cases "host_require h (resolve_name_lib name opts)")
    case (Inl ex)
    with Str load_part000_single [OF truthy_throws single, of name] show ?thesis
      by (simp add: require_part000_def require_lib_def defaults_require_part000_def
          defaults_require_lib_def)
  next
    case (Inr dependency)
    with Str load_part000_single [OF truthy_throws single, of name] inner show ?thesis
      by (cases dependency)
         (simp_all add: require_part000_def require_lib_def defaults_require_part000_def
          defaults_require_lib_def split: option.splits)
  qed
qed (simp_all add: require_part000_def require_lib_def defaults_require_part000_def
          defaults_require_lib_def)

lemma versions_agree:
  assumes truthy_throws: "\<forall>p ex. host_require h p = Inl ex \<longrightarrow> truthy ex"
    and single: "\<forall>ds. moduleDir (lodash_defaults
                    (case options of None \<Rightarrow> empty_object | Some given \<Rightarrow> given) dflt)
                  \<noteq> Some (DirArr ds)"
  shows "vaccinate_part000 n h dflt func options = vaccinate_lib n h dflt func options Undefined"
  using single
proof (induction n arbitrary: func options)
  case 0
  then show ?case by simp
next
  case (Suc n)
  define opts where "opts = lodash_defaults (case options of None \<Rightarrow> empty_object | Some given \<Rightarrow> given) dflt"
  have fixp: "lodash_defaults opts dflt = opts"
    by (simp add: opts_def lodash_defaults_idem)
  from Suc.prems have single': "\<forall>ds. moduleDir opts \<noteq> Some (DirArr ds)"
    by (simp add: opts_def)
  have inner: "\<forall>f. vaccinate_part000 n h dflt f (Some opts) = vaccinate_lib n h dflt f (Some opts) Undefined"
  proof
    fix f
    show "vaccinate_part000 n h dflt f (Some opts) = vaccinate_lib n h dflt f (Some opts) Undefined"
      using Suc.IH [of "Some opts" f] single' fixp by simp
  qed
  have agree: "\<forall>m. call_require (require_part000 n h dflt) h m opts
                  = call_require (require_lib n h dflt) h m opts"
    using require_versions_agree [OF truthy_throws single' inner]
    by (simp add: call_require_def split: option.splits loader.splits)
  have keeps: "\<forall>m o' tr r. call_require (require_part000 n h dflt) h m opts = Some (o', tr, r) \<longrightarrow> o' = opts"
    using require_part000_keeps [OF fixp] by blast
  have loop: "map_require (call_require (require_part000 n h dflt) h) opts ms
                = map_require (call_require (require_lib n h dflt) h) opts ms" for ms
    using map_require_cong_at [where ?cb1.0 = "call_require (require_part000 n h dflt) h"
        and ?cb2.0 = "call_require (require_lib n h dflt) h" and opts = opts, OF agree keeps] .
  show ?case
  proof (cases "isArray (fun_prop h func (prop_key (dependenciesProperty opts)))")
    case False
    from vaccinate_part000_not_array [OF False opts_def, of n]
      vaccinate_lib_not_array [OF False opts_def, of n Undefined]
    show ?thesis by (simp del: vaccinate_part000.simps vaccinate_lib.simps)
  next
    case True
    then obtain modules where arr: "fun_prop h func (prop_key (dependenciesProperty opts)) = Arr modules"
      by (cases "fun_prop h func (prop_key (dependenciesProperty opts))") simp_all
    have null: "js_or Undefined Null = Null"
      by (simp add: js_or_def)
    from vaccinate_part000_array [OF arr opts_def, of n]
      vaccinate_lib_array [OF arr opts_def, of n Undefined] loop [of modules]
    show ?thesis unfolding null by (simp del: vaccinate_part000.simps vaccinate_lib.simps)
  qed
qed

subsection \<open>Unfolding the definitions on the example host\<close>

lemmas demo_defs = demo_host_def initial_defaults_def empty_object_def
  lodash_defaults_def call_require_def require_lib_def require_part000_def
  defaults_require_lib_def defaults_require_part000_def resolve_name_lib_def load_part000_def
  startsWith_def TypeError_def js_or_def Let_def

section \<open>The claims\<close>



text \<open>
  C2. When the value obtained from Node's \<open>require\<close> is a function \<open>f\<close> that carries an
  array under \<open>options.dependenciesProperty\<close>, the default loader's run is the run of
  \<open>vaccinate\<close> on \<open>f\<close> with the same options object and no context, after the events of
  the loading; so a value it resolves to is what \<open>f\<close> returns when applied with a null
  receiver to its own resolved dependencies, not \<open>f\<close> itself. In the first version the
  value obtained is that of the one \<open>require\<close> call; in the second it is the value lines
  32 to 50 leave in \<open>dependency\<close>.
\<close>

theorem C2_recursive_injection:
  assumes decl: "isArray (fun_prop h f (prop_key (dependenciesProperty opts)))"
  shows "(host_require h (resolve_name_lib name opts) = Inr (Fun f) \<longrightarrow>
            require_lib n h dflt (Str name) opts
              = (case vaccinate_lib n h dflt f (Some opts) Undefined of
                   None \<Rightarrow> None
                 | Some (opts', tr, r) \<Rightarrow> Some (opts', Host (resolve_name_lib name opts) # tr, r))
            \<and> (require_lib n h dflt (Str name) opts = Some (opts', tr, Inr v) \<longrightarrow>
                 (\<exists>args. invocations tr = [(f, Null, args)] \<and> fun_apply h f Null args = Inr v)))
       \<and> (load_part000 h name opts = (tr0, Inr (Fun f)) \<longrightarrow>
            require_part000 n h dflt (Str name) opts
              = (case vaccinate_part000 n h dflt f (Some opts) of
                   None \<Rightarrow> None
                 | Some (opts', tr, r) \<Rightarrow> Some (opts', tr0 @ tr, r))
            \<and> (require_part000 n h dflt (Str name) opts = Some (opts', tr, Inr v) \<longrightarrow>
                 (\<exists>args. invocations tr = [(f, Null, args)] \<and> fun_apply h f Null args = Inr v)))"
proof (intro conjI impI)
  assume raw: "host_require h (resolve_name_lib name opts) = Inr (Fun f)"
  show eq: "require_lib n h dflt (Str name) opts
              = (case vaccinate_lib n h dflt f (Some opts) Undefined of
                   None \<Rightarrow> None
                 | Some (opts', tr, r) \<Rightarrow> Some (opts', Host (resolve_name_lib name opts) # tr, r))"
    using require_lib_declaring [OF raw decl] .
  assume run: "require_lib n h dflt (Str name) opts = Some (opts', tr, Inr v)"
  with eq obtain sub where
    inner: "vaccinate_lib n h dflt f (Some opts) Undefined = Some (opts', sub, Inr v)"
    and tr: "tr = Host (resolve_name_lib name opts) # sub"
    by (auto split: option.splits)
  from vaccinate_lib_outcome [OF inner] tr
  show "\<exists>args. invocations tr = [(f, Null, args)] \<and> fun_apply h f Null args = Inr v"
    by (auto simp: js_or_def)
next
  assume raw: "load_part000 h name opts = (tr0, Inr (Fun f))"
  show eq: "require_part000 n h dflt (Str name) opts
              = (case vaccinate_part000 n h dflt f (Some opts) of
                   None \<Rightarrow> None
                 | Some (opts', tr, r) \<Rightarrow> Some (opts', tr0 @ tr, r))"
    using require_part000_declaring [OF raw decl] .
  assume run: "require_part000 n h dflt (Str name) opts = Some (opts', tr, Inr v)"
  with eq obtain sub where
    inner: "vaccinate_part000 n h dflt f (Some opts) = Some (opts', sub, Inr v)"
    and tr: "tr = tr0 @ sub"
    by (auto split: option.splits)
  from vaccinate_part000_outcome [OF inner] tr load_part000_invocations [OF raw]
  show "\<exists>args. invocations tr = [(f, Null, args)] \<and> fun_apply h f Null args = Inr v"
    by (auto simp: invocations_append)
qed

text \<open>
  The user factory (function 2) is loaded from \<open>/app/./user\<close>; the resolved value is the
  object it returns when applied to the logger.
\<close>

theorem C2_recursive_injection_witness:
  "isArray (fun_prop demo_host 2 (prop_key (dependenciesProperty merged_app_options)))
   \<and> host_require demo_host (resolve_name_lib ''./user'' merged_app_options) = Inr (Fun 2)
   \<and> load_part000 demo_host ''./user'' merged_app_options = ([Host ''/app/./user''], Inr (Fun 2))
   \<and> vaccinate_lib (Suc 0) demo_host initial_defaults 2 (Some merged_app_options) Undefined
       = Some (merged_app_options,
               [Loader (Str ''./logger'') [Host ''/app/./logger''], Invoke 2 Null [Obj 1]],
               Inr (Obj 5))
   \<and> require_lib (Suc 0) demo_host initial_defaults (Str ''./user'') merged_app_options
       = Some (merged_app_options,
               [Host ''/app/./user'', Loader (Str ''./logger'') [Host ''/app/./logger''],
                Invoke 2 Null [Obj 1]],
               Inr (Obj 5))
   \<and> require_part000 (Suc 0) demo_host initial_defaults (Str ''./user'') merged_app_options
       = Some (merged_app_options,
               [Host ''/app/./user'', Loader (Str ''./logger'') [Host ''/app/./logger''],
                Invoke 2 Null [Obj 1]],
               Inr (Obj 5))
   \<and> fun_apply demo_host 2 Null [Obj 1] = Inr (Obj 5)"
proof -
  have decl: "isArray (fun_prop demo_host 2 (prop_key (dependenciesProperty merged_app_options)))"
    by (simp add: demo_host_def merged_app_options_def)
  have raw_lib: "host_require demo_host (resolve_name_lib ''./user'' merged_app_options) = Inr (Fun 2)"
    by (simp add: demo_host_def merged_app_options_def resolve_name_lib_def startsWith_def)
  have raw_part000: "load_part000 demo_host ''./user'' merged_app_options
       = ([Host ''/app/./user''], Inr (Fun 2))"
    by (simp add: demo_host_def merged_app_options_def load_part000_def startsWith_def)
  have path: "resolve_name_lib ''./user'' merged_app_options = ''/app/./user''"
    by (simp add: merged_app_options_def resolve_name_lib_def startsWith_def)
  have inner_lib:
    "vaccinate_lib (Suc 0) demo_host initial_defaults 2 (Some merged_app_options) Undefined
       = Some (merged_app_options,
               [Loader (Str ''./logger'') [Host ''/app/./logger''], Invoke 2 Null [Obj 1]],
               Inr (Obj 5))"
    by (simp add: demo_defs merged_app_options_def)
  have inner_part000:
    "vaccinate_part000 (Suc 0) demo_host initial_defaults 2 (Some merged_app_options)
       = Some (merged_app_options,
               [Loader (Str ''./logger'') [Host ''/app/./logger''], Invoke 2 Null [Obj 1]],
               Inr (Obj 5))"
    by (simp add: demo_defs merged_app_options_def)
  note w = C2_recursive_injection [OF decl, of "''./user''" "Suc 0" initial_defaults
      merged_app_options
      "[Host ''/app/./user'', Loader (Str ''./logger'') [Host ''/app/./logger''], Invoke 2 Null [Obj 1]]"
      "Obj 5" "[Host ''/app/./user'']"]
  from w raw_lib have a:
    "require_lib (Suc 0) demo_host initial_defaults (Str ''./user'') merged_app_options
       = (case vaccinate_lib (Suc 0) demo_host initial_defaults 2 (Some merged_app_options) Undefined of
            None \<Rightarrow> None
          | Some (opts', tr, r) \<Rightarrow>
              Some (opts', Host (resolve_name_lib ''./user'' merged_app_options) # tr, r))"
    by blast
  from w raw_part000 have b:
    "require_part000 (Suc 0) demo_host initial_defaults (Str ''./user'') merged_app_options
       = (case vaccinate_part000 (Suc 0) demo_host initial_defaults 2 (Some merged_app_options) of
            None \<Rightarrow> None
          | Some (opts', tr, r) \<Rightarrow> Some (opts', [Host ''/app/./user''] @ tr, r))"
    by blast
  have a': "require_lib (Suc 0) demo_host initial_defaults (Str ''./user'') merged_app_options
       = Some (merged_app_options,
               [Host ''/app/./user'', Loader (Str ''./logger'') [Host ''/app/./logger''],
                Invoke 2 Null [Obj 1]],
               Inr (Obj 5))"
    using a inner_lib path by (simp del: vaccinate_lib.simps)
  have b': "require_part000 (Suc 0) demo_host initial_defaults (Str ''./user'') merged_app_options
       = Some (merged_app_options,
               [Host ''/app/./user'', Loader (Str ''./logger'') [Host ''/app/./logger''],
                Invoke 2 Null [Obj 1]],
               Inr (Obj 5))"
    using b inner_part000 by (simp del: vaccinate_part000.simps)
  from w raw_lib a' have c: "\<exists>args. invocations
        [Host ''/app/./user'', Loader (Str ''./logger'') [Host ''/app/./logger''],
         Invoke 2 Null [Obj 1]] = [(2, Null, args)]
      \<and> fun_apply demo_host 2 Null args = Inr (Obj 5)"
    by blast
  then have d: "fun_apply demo_host 2 Null [Obj 1] = Inr (Obj 5)"
    by simp
  from decl raw_lib raw_part000 inner_lib a' b' d show ?thesis
    by (simp del: vaccinate_lib.simps vaccinate_part000.simps)
qed

text \<open>
  C3. With a list of directories under each of which a name that begins with "./" fails
  to load, the second version is to throw what the attempt under the last directory
  threw. It does so when that value is truthy (\<open>load_part000_all_fail\<close> above). When it
  is falsy the code does not: line 47 is \<open>if (ex) throw ex\<close>, so nothing is thrown, the
  loader returns undefined, and the target is applied to it. Here the logger is missing
  under \<open>/nowhere\<close>, and the module under \<open>/bad\<close> executes \<open>throw null\<close>.
\<close>

theorem C3_falsy_failure_swallowed:
  "host_require demo_host ''/nowhere/./logger''
     = Inl (ErrorObj ''Cannot find module /nowhere/./logger'')
   \<and> host_require demo_host ''/bad/./logger'' = Inl Null
   \<and> load_part000 demo_host ''./logger'' failing_options
     = ([Host ''/nowhere/./logger'', Host ''/bad/./logger''], Inr Undefined)
   \<and> require_part000 0 demo_host initial_defaults (Str ''./logger'') failing_options
     = Some (failing_options, [Host ''/nowhere/./logger'', Host ''/bad/./logger''], Inr Undefined)
   \<and> vaccinate_part000 (Suc 0) demo_host initial_defaults 8 (Some failing_options)
     = Some (failing_options,
             [Loader (Str ''./logger'') [Host ''/nowhere/./logger'', Host ''/bad/./logger''],
              Invoke 8 Null [Undefined]],
             Inr (Arr [Null, Undefined]))"
  by (simp add: demo_defs failing_options_def)

text \<open>
  C4. In the second version, for a name that begins with "./" and a list of directories
  \<open>pre @ d # post\<close> where Node's \<open>require\<close> throws under every directory of \<open>pre\<close> and
  returns \<open>v\<close> under \<open>d\<close>: the directories of \<open>pre\<close> and then \<open>d\<close> are tried in that order,
  those of \<open>post\<close> are not, nothing is thrown and the value loaded is \<open>v\<close>; unless \<open>v\<close> is a
  function that declares dependencies (which is then vaccinated, C2), \<open>v\<close> is the resolved
  value.
\<close>

theorem C4_first_success_wins:
  assumes "moduleDir opts = Some (DirArr (pre @ d # post))"
    and "startsWith name ''./''"
    and "\<forall>p \<in> set pre. \<exists>ex. host_require h (p @ ''/'' @ name) = Inl ex"
    and "host_require h (d @ ''/'' @ name) = Inr v"
  shows "load_part000 h name opts = (map (\<lambda>p. Host (p @ ''/'' @ name)) (pre @ [d]), Inr v)
       \<and> ((\<forall>f. v = Fun f \<longrightarrow> \<not> isArray (fun_prop h f (prop_key (dependenciesProperty opts))))
            \<longrightarrow> require_part000 n h dflt (Str name) opts
                  = Some (opts, map (\<lambda>p. Host (p @ ''/'' @ name)) (pre @ [d]), Inr v))"
proof -
  have loop: "some_moduleDirs h name (pre @ d # post) (Undefined, Undefined)
                = ((v, Null), map (\<lambda>p. Host (p @ ''/'' @ name)) (pre @ [d]))"
    using some_moduleDirs_first_success [OF assms(3) assms(4)] .
  have load: "load_part000 h name opts = (map (\<lambda>p. Host (p @ ''/'' @ name)) (pre @ [d]), Inr v)"
    using load_part000_relative [OF assms(1) _ assms(2), of h] loop by simp
  have "require_part000 n h dflt (Str name) opts
          = Some (opts, map (\<lambda>p. Host (p @ ''/'' @ name)) (pre @ [d]), Inr v)"
    if "\<forall>f. v = Fun f \<longrightarrow> \<not> isArray (fun_prop h f (prop_key (dependenciesProperty opts)))"
    using that load
    by (cases v) (simp_all add: require_part000_def defaults_require_part000_def)
  with load show ?thesis by blast
qed

text \<open>
  The logger exists under \<open>/alt\<close> and under \<open>/app\<close> and not under \<open>/nowhere\<close>: the one under
  \<open>/alt\<close> is used and \<open>/app\<close> is not tried.
\<close>

theorem C4_first_success_wins_witness:
  "moduleDir search_options = Some (DirArr ([''/nowhere''] @ ''/alt'' # [''/app'']))
   \<and> startsWith ''./logger'' ''./''
   \<and> host_require demo_host (''/nowhere'' @ ''/'' @ ''./logger'')
        = Inl (ErrorObj ''Cannot find module /nowhere/./logger'')
   \<and> host_require demo_host (''/alt'' @ ''/'' @ ''./logger'') = Inr (Obj 3)
   \<and> host_require demo_host (''/app'' @ ''/'' @ ''./logger'') = Inr (Obj 1)
   \<and> load_part000 demo_host ''./logger'' search_options
        = ([Host ''/nowhere/./logger'', Host ''/alt/./logger''], Inr (Obj 3))
   \<and> require_part000 0 demo_host initial_defaults (Str ''./logger'') search_options
        = Some (search_options, [Host ''/nowhere/./logger'', Host ''/alt/./logger''], Inr (Obj 3))"
proof -
  have a: "moduleDir search_options = Some (DirArr ([''/nowhere''] @ ''/alt'' # [''/app'']))"
    by (simp add: search_options_def)
  have b: "startsWith ''./logger'' ''./''"
    by (simp add: startsWith_def)
  have c: "\<forall>p \<in> set [''/nowhere'']. \<exists>ex. host_require demo_host (p @ ''/'' @ ''./logger'') = Inl ex"
    by (simp add: demo_host_def)
  have d: "host_require demo_host (''/alt'' @ ''/'' @ ''./logger'') = Inr (Obj 3)"
    by (simp add: demo_host_def)
  have e: "host_require demo_host (''/nowhere'' @ ''/'' @ ''./logger'')
        = Inl (ErrorObj ''Cannot find module /nowhere/./logger'')"
    by (simp add: demo_host_def)
  have f: "host_require demo_host (''/app'' @ ''/'' @ ''./logger'') = Inr (Obj 1)"
    by (simp add: demo_host_def)
  from C4_first_success_wins [OF a b c d, of 0 initial_defaults] a b d e f
  show ?thesis by simp
qed

text \<open>
  C5. As the code has it: the options of a call are the caller's overrides merged over
  the defaults, but the merge is done in place (line 20, \<open>_.defaults(options, ...)\<close>): when
  the call ends, by returning or by throwing, the caller's object holds the merged
  options. Each property the caller set keeps its value; each property the caller left
  undefined has the value the defaults give it.
\<close>

theorem C5_options_filled_in_place:
  "(vaccinate_lib n h dflt func (Some given) ctx = Some (opts', tr, r)
      \<longrightarrow> opts' = lodash_defaults given dflt)
   \<and> (vaccinate_part000 n h dflt func (Some given) = Some (opts', tr, r)
      \<longrightarrow> opts' = lodash_defaults given dflt)
   \<and> dependenciesProperty (lodash_defaults given dflt)
        = (case dependenciesProperty given of None \<Rightarrow> dependenciesProperty dflt | Some v \<Rightarrow> Some v)
   \<and> moduleDir (lodash_defaults given dflt)
        = (case moduleDir given of None \<Rightarrow> moduleDir dflt | Some v \<Rightarrow> Some v)
   \<and> require (lodash_defaults given dflt)
        = (case require given of None \<Rightarrow> require dflt | Some v \<Rightarrow> Some v)"
proof -
  have a: "opts' = lodash_defaults given dflt"
    if "vaccinate_lib n h dflt func (Some given) ctx = Some (opts', tr, r)"
    using vaccinate_lib_options [OF that] by simp
  have b: "opts' = lodash_defaults given dflt"
    if "vaccinate_part000 n h dflt func (Some given) = Some (opts', tr, r)"
    using vaccinate_part000_options [OF that] by simp
  from a b show ?thesis by (simp add: lodash_defaults_def)
qed

theorem C5_options_filled_in_place_witness:
  "vaccinate_lib (Suc (Suc 0)) demo_host initial_defaults 0 (Some app_options) Undefined
     = Some (lodash_defaults app_options initial_defaults,
             [Loader (Str ''./user'')
                [Host ''/app/./user'',
                 Loader (Str ''./logger'') [Host ''/app/./logger''],
                 Invoke 2 Null [Obj 1]],
              Loader (Str ''./logger'') [Host ''/app/./logger''],
              Invoke 0 Null [Obj 5, Obj 1]],
             Inr (Arr [Null, Obj 5, Obj 1]))
   \<and> vaccinate_part000 (Suc (Suc 0)) demo_host initial_defaults 0 (Some app_options)
     = Some (lodash_defaults app_options initial_defaults,
             [Loader (Str ''./user'')
                [Host ''/app/./user'',
                 Loader (Str ''./logger'') [Host ''/app/./logger''],
                 Invoke 2 Null [Obj 1]],
              Loader (Str ''./logger'') [Host ''/app/./logger''],
              Invoke 0 Null [Obj 5, Obj 1]],
             Inr (Arr [Null, Obj 5, Obj 1]))
   \<and> lodash_defaults app_options initial_defaults
     = \<lparr>dependenciesProperty = Some ''$vaccinations'', moduleDir = Some (DirStr ''/app''),
        require = Some DefaultRequire\<rparr>"
proof -
  have run_lib: "\<exists>o' tr. vaccinate_lib (Suc (Suc 0)) demo_host initial_defaults 0 (Some app_options) Undefined
     = Some (o', tr, Inr (Arr [Null, Obj 5, Obj 1]))
     \<and> tr = [Loader (Str ''./user'')
                [Host ''/app/./user'',
                 Loader (Str ''./logger'') [Host ''/app/./logger''],
                 Invoke 2 Null [Obj 1]],
              Loader (Str ''./logger'') [Host ''/app/./logger''],
              Invoke 0 Null [Obj 5, Obj 1]]"
    by (simp add: demo_defs app_options_def)
  have run_part000: "\<exists>o' tr. vaccinate_part000 (Suc (Suc 0)) demo_host initial_defaults 0 (Some app_options)
     = Some (o', tr, Inr (Arr [Null, Obj 5, Obj 1]))
     \<and> tr = [Loader (Str ''./user'')
                [Host ''/app/./user'',
                 Loader (Str ''./logger'') [Host ''/app/./logger''],
                 Invoke 2 Null [Obj 1]],
              Loader (Str ''./logger'') [Host ''/app/./logger''],
              Invoke 0 Null [Obj 5, Obj 1]]"
    by (simp add: demo_defs app_options_def)
  have merged: "lodash_defaults app_options initial_defaults
     = \<lparr>dependenciesProperty = Some ''$vaccinations'', moduleDir = Some (DirStr ''/app''),
        require = Some DefaultRequire\<rparr>"
    by (simp add: lodash_defaults_def app_options_def initial_defaults_def)
  from run_lib run_part000 merged
    C5_options_filled_in_place [of "Suc (Suc 0)" demo_host initial_defaults 0 app_options Undefined]
  show ?thesis by (metis (no_types, lifting))
qed

text \<open>
  The claim as stated fails: a caller that passes the empty object \<open>{}\<close> finds the
  defaults' \<open>dependenciesProperty\<close> and \<open>require\<close> in it after the call.
\<close>

theorem C5_caller_options_modified:
  "vaccinate_lib (Suc 0) demo_host initial_defaults 4 (Some empty_object) Undefined
     = Some (initial_defaults, [Invoke 4 Null []], Inr (Arr [Null]))
   \<and> vaccinate_part000 (Suc 0) demo_host initial_defaults 4 (Some empty_object)
     = Some (initial_defaults, [Invoke 4 Null []], Inr (Arr [Null]))
   \<and> initial_defaults \<noteq> empty_object"
  by (simp add: demo_defs)

text \<open>
  C6. As the code has it: in \<open>src/lib/index.js\<close> a context that is provided (an object,
  line 15) is the receiver of the target's one application, and with no context the
  receiver is null. The second version declares no context parameter (line 18): a
  context passed to it is dropped and the receiver is null. In both, whenever the target
  is applied it is applied once, and the result of the call is its result.
\<close>

theorem C6_receiver:
  "(vaccinate_lib n h dflt func options ctx = Some (opts', tr, r)
      \<and> (f, this, args) \<in> set (invocations tr)
      \<longrightarrow> f = func \<and> invocations tr = [(func, this, args)] \<and> r = fun_apply h func this args
          \<and> (is_object ctx \<longrightarrow> this = ctx) \<and> (ctx = Undefined \<longrightarrow> this = Null))
   \<and> (vaccinate_part000_with_context n h dflt func options ctx = Some (opts', tr, r)
      \<and> (f, this, args) \<in> set (invocations tr)
      \<longrightarrow> f = func \<and> invocations tr = [(func, this, args)] \<and> r = fun_apply h func this args
          \<and> this = Null)"
proof -
  have a: "f = func \<and> invocations tr = [(func, this, args)] \<and> r = fun_apply h func this args
          \<and> (is_object ctx \<longrightarrow> this = ctx) \<and> (ctx = Undefined \<longrightarrow> this = Null)"
    if "vaccinate_lib n h dflt func options ctx = Some (opts', tr, r)"
      and "(f, this, args) \<in> set (invocations tr)"
    using vaccinate_lib_outcome [OF that(1)] that(2) is_object_truthy [of ctx]
    by (auto simp: js_or_def)
  have b: "f = func \<and> invocations tr = [(func, this, args)] \<and> r = fun_apply h func this args
          \<and> this = Null"
    if "vaccinate_part000_with_context n h dflt func options ctx = Some (opts', tr, r)"
      and "(f, this, args) \<in> set (invocations tr)"
    using vaccinate_part000_outcome [OF that(1) [unfolded vaccinate_part000_with_context_def]]
      that(2) by auto
  from a b show ?thesis by blast
qed

text \<open>
  Function 4 is called with the object 7 as context, and with none, in the first
  version; and with the object 7 as a third argument in the second.
\<close>

theorem C6_receiver_witness:
  "is_object (Obj 7)
   \<and> vaccinate_lib (Suc 0) demo_host initial_defaults 4 None (Obj 7)
     = Some (initial_defaults, [Invoke 4 (Obj 7) []], Inr (Arr [Obj 7]))
   \<and> (4, Obj 7, []) \<in> set (invocations [Invoke 4 (Obj 7) []])
   \<and> fun_apply demo_host 4 (Obj 7) [] = Inr (Arr [Obj 7])
   \<and> vaccinate_lib (Suc 0) demo_host initial_defaults 4 None Undefined
     = Some (initial_defaults, [Invoke 4 Null []], Inr (Arr [Null]))
   \<and> vaccinate_part000_with_context (Suc 0) demo_host initial_defaults 4 None (Obj 7)
     = Some (initial_defaults, [Invoke 4 Null []], Inr (Arr [Null]))
   \<and> (4, Null, []) \<in> set (invocations [Invoke 4 Null []])
   \<and> fun_apply demo_host 4 Null [] = Inr (Arr [Null])"
proof -
  have obj: "is_object (Obj 7)"
    by simp
  have a: "\<exists>this. vaccinate_lib (Suc 0) demo_host initial_defaults 4 None (Obj 7)
     = Some (initial_defaults, [Invoke 4 this []], Inr (Arr [Obj 7]))"
    by (simp add: demo_defs)
  then obtain this where run: "vaccinate_lib (Suc 0) demo_host initial_defaults 4 None (Obj 7)
     = Some (initial_defaults, [Invoke 4 this []], Inr (Arr [Obj 7]))"
    by blast
  have mem: "(4, this, []) \<in> set (invocations [Invoke 4 this []])"
    by simp
  from C6_receiver [of "Suc 0" demo_host initial_defaults 4 None "Obj 7" initial_defaults
      "[Invoke 4 this []]" "Inr (Arr [Obj 7])" 4 this "[]"] run mem obj
  have this_ctx: "this = Obj 7" and res: "Inr (Arr [Obj 7]) = fun_apply demo_host 4 this []"
    by blast+
  have b: "\<exists>this. vaccinate_lib (Suc 0) demo_host initial_defaults 4 None Undefined
     = Some (initial_defaults, [Invoke 4 this []], Inr (Arr [Null]))"
    by (simp add: demo_defs)
  then obtain this0 where run0: "vaccinate_lib (Suc 0) demo_host initial_defaults 4 None Undefined
     = Some (initial_defaults, [Invoke 4 this0 []], Inr (Arr [Null]))"
    by blast
  have mem0: "(4, this0, []) \<in> set (invocations [Invoke 4 this0 []])"
    by simp
  from C6_receiver [of "Suc 0" demo_host initial_defaults 4 None Undefined initial_defaults
      "[Invoke 4 this0 []]" "Inr (Arr [Null])" 4 this0 "[]"] run0 mem0
  have this0: "this0 = Null" and res0: "Inr (Arr [Null]) = fun_apply demo_host 4 this0 []"
    by blast+
  have c: "\<exists>this. vaccinate_part000_with_context (Suc 0) demo_host initial_defaults 4 None (Obj 7)
     = Some (initial_defaults, [Invoke 4 this []], Inr (Arr [Null]))"
    by (simp add: demo_defs vaccinate_part000_with_context_def)
  then obtain this1 where run1:
    "vaccinate_part000_with_context (Suc 0) demo_host initial_defaults 4 None (Obj 7)
     = Some (initial_defaults, [Invoke 4 this1 []], Inr (Arr [Null]))"
    by blast
  have mem1: "(4, this1, []) \<in> set (invocations [Invoke 4 this1 []])"
    by simp
  from C6_receiver [of "Suc 0" demo_host initial_defaults 4 None "Obj 7" initial_defaults
      "[Invoke 4 this1 []]" "Inr (Arr [Null])" 4 this1 "[]"] run1 mem1
  have this1: "this1 = Null"
    by blast
  from obj run this_ctx res run0 this0 res0 run1 this1 show ?thesis
    by (simp del: vaccinate_lib.simps)
qed

text \<open>
  The claim as stated fails in the second version: a call that provides an object as
  context applies the target with the receiver null.
\<close>

theorem C6_second_version_ignores_context:
  "is_object (Obj 7)
   \<and> vaccinate_part000_with_context (Suc 0) demo_host initial_defaults 4 None (Obj 7)
     = Some (initial_defaults, [Invoke 4 Null []], Inr (Arr [Null]))
   \<and> invocations [Invoke 4 Null []] = [(4, Null, [])]
   \<and> Null \<noteq> Obj 7"
  by (simp add: demo_defs vaccinate_part000_with_context_def)



text \<open>
  C8. A target whose property under the configured name is not an array (the declaration
  is absent, so that the property reads as undefined, or holds a value that cannot be
  mapped over) makes \<open>vaccinate\<close> throw a TypeError at line 22, in both versions: nothing
  is loaded and the target is never invoked (the trace is empty).
\<close>

theorem C8_missing_declaration:
  assumes "\<not> isArray (fun_prop h func (prop_key (dependenciesProperty opts)))"
    and "opts = lodash_defaults (case options of None \<Rightarrow> empty_object | Some given \<Rightarrow> given) dflt"
  shows "vaccinate_lib (Suc n) h dflt func options ctx = Some (opts, [], Inl TypeError)
       \<and> vaccinate_part000 (Suc n) h dflt func options = Some (opts, [], Inl TypeError)"
  using vaccinate_lib_not_array [OF assms] vaccinate_part000_not_array [OF assms] by blast

theorem C8_missing_declaration_witness:
  "\<not> isArray (fun_prop demo_host 6 (prop_key (dependenciesProperty initial_defaults)))
   \<and> vaccinate_lib (Suc 0) demo_host initial_defaults 6 None (Obj 7)
       = Some (initial_defaults, [], Inl TypeError)
   \<and> vaccinate_part000 (Suc 0) demo_host initial_defaults 6 None
       = Some (initial_defaults, [], Inl TypeError)"
proof -
  have a: "\<not> isArray (fun_prop demo_host 6 (prop_key (dependenciesProperty initial_defaults)))"
    by (simp add: demo_host_def initial_defaults_def)
  have b: "initial_defaults = lodash_defaults (case None of None \<Rightarrow> empty_object | Some given \<Rightarrow> given) initial_defaults"
    by (simp add: initial_defaults_def lodash_defaults_def empty_object_def)
  from C8_missing_declaration [OF a b, of 0 "Obj 7"] a show ?thesis by blast
qed

text \<open>
  C9. With \<open>moduleDir\<close> absent or a single string and no context, the two versions make
  the same run whenever every value Node's \<open>require\<close> throws is truthy
  (\<open>versions_agree\<close> above). They differ when a module throws a falsy value under a
  single directory: the first version lets the throw through at line 33, the second
  catches it, does not rethrow (line 47, as in C3), resolves the dependency to undefined
  and applies the target.
\<close>

theorem C9_versions_differ:
  "host_require demo_host ''/bad/./logger'' = Inl Null
   \<and> vaccinate_lib (Suc 0) demo_host initial_defaults 8 (Some bad_dir_options) Undefined
     = Some (bad_dir_options, [Loader (Str ''./logger'') [Host ''/bad/./logger'']], Inl Null)
   \<and> vaccinate_part000 (Suc 0) demo_host initial_defaults 8 (Some bad_dir_options)
     = Some (bad_dir_options,
             [Loader (Str ''./logger'') [Host ''/bad/./logger''], Invoke 8 Null [Undefined]],
             Inr (Arr [Null, Undefined]))"
  by (simp add: demo_defs bad_dir_options_def)

text \<open>
  C10. In the second version, with \<open>options.moduleDir\<close> an empty array, the default
  loader resolves a name that begins with "./" without calling Node's \<open>require\<close> and
  without throwing, and the resolved value is undefined; the callback of line 22 hands
  that value on as it is.
\<close>

theorem C10_empty_moduleDir_list:
  assumes "moduleDir opts = Some (DirArr [])" and "startsWith name ''./''"
  shows "load_part000 h name opts = ([], Inr Undefined)
       \<and> require_part000 n h dflt (Str name) opts = Some (opts, [], Inr Undefined)
       \<and> (require opts = Some DefaultRequire \<longrightarrow>
            call_require (require_part000 n h dflt) h (Str name) opts
              = Some (opts, [Loader (Str name) []], Inr Undefined))"
proof -
  have load: "load_part000 h name opts = ([], Inr Undefined)"
    using assms by (simp add: load_part000_def)
  have req: "require_part000 n h dflt (Str name) opts = Some (opts, [], Inr Undefined)"
    using load by (simp add: require_part000_def defaults_require_part000_def)
  show ?thesis using load req by (simp add: call_require_def)
qed

theorem C10_empty_moduleDir_list_witness:
  "moduleDir no_dirs_options = Some (DirArr []) \<and> startsWith ''./logger'' ''./''
   \<and> load_part000 demo_host ''./logger'' no_dirs_options = ([], Inr Undefined)
   \<and> require_part000 0 demo_host initial_defaults (Str ''./logger'') no_dirs_options
       = Some (no_dirs_options, [], Inr Undefined)
   \<and> call_require (require_part000 0 demo_host initial_defaults) demo_host (Str ''./logger'')
         no_dirs_options
       = Some (no_dirs_options, [Loader (Str ''./logger'') []], Inr Undefined)
   \<and> vaccinate_part000 (Suc 0) demo_host initial_defaults 8 (Some no_dirs_options)
       = Some (no_dirs_options, [Loader (Str ''./logger'') [], Invoke 8 Null [Undefined]],
               Inr (Arr [Null, Undefined]))"
proof -
  have a: "moduleDir no_dirs_options = Some (DirArr [])"
    by (simp add: no_dirs_options_def)
  have b: "startsWith ''./logger'' ''./''"
    by (simp add: startsWith_def)
  have c: "require no_dirs_options = Some DefaultRequire"
    by (simp add: no_dirs_options_def)
  have d: "lodash_defaults no_dirs_options initial_defaults = no_dirs_options"
    by (simp add: no_dirs_options_def initial_defaults_def lodash_defaults_def)
  have e: "fun_prop demo_host 8 ''$vaccinations'' = Arr [Str ''./logger'']"
    by (simp add: demo_host_def)
  have f: "dependenciesProperty no_dirs_options = Some ''$vaccinations''"
    by (simp add: no_dirs_options_def)
  have g: "fun_apply demo_host 8 Null [Undefined] = Inr (Arr [Null, Undefined])"
    by (simp add: demo_host_def)
  note w = C10_empty_moduleDir_list [OF a b, of demo_host 0 initial_defaults]
  from w c have cb: "call_require (require_part000 0 demo_host initial_defaults) demo_host
      (Str ''./logger'') no_dirs_options
       = Some (no_dirs_options, [Loader (Str ''./logger'') []], Inr Undefined)"
    by blast
  have "vaccinate_part000 (Suc 0) demo_host initial_defaults 8 (Some no_dirs_options)
       = Some (no_dirs_options, [Loader (Str ''./logger'') [], Invoke 8 Null [Undefined]],
               Inr (Arr [Null, Undefined]))"
    by (simp add: vaccinate_part000_Suc d e f g cb del: vaccinate_part000.simps)
  with w a b cb show ?thesis by blast
qed

end
